theory Spec2Isabelle
  imports Main "HOL-Library.AList"
begin

section \<open>The audit logger of pplan: SCD Type 2 versioning and audit logging\<close>

text \<open>
  A shallow embedding of the module \<^verbatim>\<open>audit-logger.ts\<close>. The repository holds two
  revisions of the module that differ only in how row properties are spelled:
  \<^verbatim>\<open>src/unnamed/part_000\<close> (snake_case properties, followed by the schema that declares
  exactly these properties) and \<^verbatim>\<open>src/audit-logger.ts\<close> (the same statements, line by
  line, with camelCase properties: \<^verbatim>\<open>isCurrent\<close> for \<^verbatim>\<open>is_current\<close>, \<^verbatim>\<open>responseStatus\<close> for
  \<^verbatim>\<open>response_status\<close>, and so on). The embedding spells properties as the schema and the
  first revision do.
\<close>

subsection \<open>JavaScript values and objects\<close>

text \<open>
  The values a property can hold. \<open>Date\<close> carries the milliseconds of
  \<^verbatim>\<open>getTime()\<close>. Strings are byte strings (UTF-8). \<open>Inherited k\<close> is the member
  that every plain object inherits from \<^verbatim>\<open>Object.prototype\<close> under the name \<open>k\<close> (the
  function \<^verbatim>\<open>toString\<close>, the function \<^verbatim>\<open>Object\<close> for \<^verbatim>\<open>constructor\<close>, ...).
\<close>

datatype val =
    Undefined
  | Null
  | Bool bool
  | Num int
  | Str string
  | Date int
  | Obj "(string \<times> val) list"
  | Arr "val list"
  | Inherited string

text \<open>
  An object (a row, an update set, a JSON snapshot) is the list of its own properties in
  insertion order; a well-formed object has each key once.
\<close>

type_synonym row = "(string \<times> val) list"

text \<open>
  The property names of \<^verbatim>\<open>Object.prototype\<close> (ECMAScript, with Annex B), which every
  object literal and every row the store returns inherits.
\<close>

definition object_prototype_keys :: "string list" where
  "object_prototype_keys =
     [''constructor'', ''hasOwnProperty'', ''isPrototypeOf'', ''propertyIsEnumerable'',
      ''toLocaleString'', ''toString'', ''valueOf'', ''__proto__'',
      ''__defineGetter__'', ''__defineSetter__'', ''__lookupGetter__'', ''__lookupSetter__'']"

text \<open>
  Property access \<^verbatim>\<open>o[k]\<close>: the object's own property; else the inherited member; else
  \<^verbatim>\<open>undefined\<close>.
\<close>

definition get_prop :: "row \<Rightarrow> string \<Rightarrow> val" where
  "get_prop r k =
     (case map_of r k of
        Some v \<Rightarrow> v
      | None \<Rightarrow> if k \<in> set object_prototype_keys then Inherited k else Undefined)"

text \<open>Truthiness, as \<^verbatim>\<open>if (x)\<close>, \<^verbatim>\<open>while (x)\<close>, \<^verbatim>\<open>!x\<close>, \<^verbatim>\<open>x ? a : b\<close> and \<^verbatim>\<open>x || y\<close> test it.\<close>

fun truthy :: "val \<Rightarrow> bool" where
  "truthy Undefined = False"
| "truthy Null = False"
| "truthy (Bool b) = b"
| "truthy (Num n) = (n \<noteq> 0)"
| "truthy (Str s) = (s \<noteq> [])"
| "truthy (Date t) = True"
| "truthy (Obj ps) = True"
| "truthy (Arr vs) = True"
| "truthy (Inherited k) = True"

text \<open>
  Object spread and the property list of an object literal, \<^verbatim>\<open>{...a, ...b, k: v}\<close>: the
  properties of the source are assigned to the target from left to right; an assignment
  to a key the target has keeps the key's place and replaces its value.
\<close>

definition spread :: "row \<Rightarrow> row \<Rightarrow> row" where
  "spread target source = fold (\<lambda>(k, v). AList.update k v) source target"

text \<open>\<^verbatim>\<open>Object.keys(o)\<close>.\<close>

definition object_keys :: "row \<Rightarrow> string list" where
  "object_keys obj = map fst obj"

text \<open>Optional string arguments (\<^verbatim>\<open>x?: string\<close>): \<open>None\<close> is \<^verbatim>\<open>undefined\<close>.\<close>

fun truthy_str :: "string option \<Rightarrow> bool" where
  "truthy_str None = False"
| "truthy_str (Some s) = (s \<noteq> [])"

subsection \<open>Tables of the schema\<close>

datatype response_status = pending | accepted | declined

datatype audit_action = create | update | delete | status_change

text \<open>
  A row of \<^verbatim>\<open>audit_logs\<close>. The fields are the columns of the schema, prefixed \<open>al_\<close>.
  An optional argument that is \<^verbatim>\<open>undefined\<close> leaves its column \<open>None\<close>.
\<close>

record audit_log =
  al_id :: string
  al_organization_id :: val
  al_entity_type :: val
  al_entity_id :: val
  al_action :: audit_action
  al_performed_by :: "string option"
  al_performed_by_staff :: "string option"
  al_old_values :: "row option"
  al_new_values :: "row option"
  al_changed_fields :: "string list option"
  al_ip_address :: "string option"
  al_user_agent :: "string option"
  al_metadata :: "row option"
  al_created_at :: int

text \<open>A row of \<^verbatim>\<open>shift_assignments\<close>, fields prefixed \<open>sa_\<close>.\<close>

record assignment =
  sa_id :: string
  sa_shift_id :: string
  sa_staff_id :: string
  sa_role_id :: "string option"
  sa_response_status :: response_status
  sa_response_message :: "string option"
  sa_invited_at :: int
  sa_responded_at :: "int option"
  sa_email_sent_at :: "int option"
  sa_created_at :: int
  sa_updated_at :: int

text \<open>A row of \<^verbatim>\<open>shift_assignment_logs\<close>, fields prefixed \<open>sl_\<close>.\<close>

record assignment_log =
  sl_id :: string
  sl_assignment_id :: string
  sl_previous_status :: "response_status option"
  sl_new_status :: response_status
  sl_changed_by :: "string option"
  sl_changed_by_staff :: "string option"
  sl_message :: "string option"
  sl_metadata :: "row option"
  sl_created_at :: int

subsection \<open>The store\<close>

text \<open>
  The database: the versioned-entity tables by table name (rows are objects, since
  \<^verbatim>\<open>createNewVersion\<close> is generic in the table), the three tables with a fixed row type,
  and the number of transactions opened so far.
\<close>

record db =
  entity_tables :: "string \<Rightarrow> row list"
  shift_assignments :: "assignment list"
  shift_assignment_logs :: "assignment_log list"
  audit_logs :: "audit_log list"
  tx_opened :: nat

text \<open>
  What a call reads from its environment: the clock (\<^verbatim>\<open>new Date()\<close>, read twice by
  \<^verbatim>\<open>updateAssignmentStatus\<close>), the values the store generates for the columns with a
  default (\<^verbatim>\<open>defaultRandom()\<close> for the ids, \<^verbatim>\<open>defaultNow()\<close> for \<^verbatim>\<open>created_at\<close> of the
  two log tables), and which write of the call, if any, the store rejects (writes are
  numbered from 0 in the order the call issues them).
\<close>

record env =
  date_now :: int
  date_now2 :: int
  row_uuid :: string
  log_uuid :: string
  audit_uuid :: string
  db_now :: int
  failing_write :: "nat option"

datatype error = Error string | StoreFailure

text \<open>
  Modelled from the spec: the store adapter (\<^verbatim>\<open>./db\<close>, Drizzle) is not part of the
  sources. Section 6 of the spec gives its operations: \<^verbatim>\<open>get(table, predicate) \<rightarrow> row?\<close>,
  \<^verbatim>\<open>update(table, predicate, values)\<close>, \<^verbatim>\<open>insert(table, values) \<rightarrow> row\<close>, and a transaction
  scope that commits or rolls back atomically. A table is the list of its rows;
  \<^verbatim>\<open>findFirst\<close> answers the first row of the list that satisfies the predicate.
\<close>

definition findFirst :: "('r \<Rightarrow> bool) \<Rightarrow> 'r list \<Rightarrow> 'r option" where
  "findFirst p rows = find p rows"

definition update_where :: "('r \<Rightarrow> bool) \<Rightarrow> ('r \<Rightarrow> 'r) \<Rightarrow> 'r list \<Rightarrow> 'r list" where
  "update_where p f rows = map (\<lambda>r. if p r then f r else r) rows"

definition insert_row :: "'r \<Rightarrow> 'r list \<Rightarrow> 'r list" where
  "insert_row r rows = rows @ [r]"

text \<open>
  Modelled from the spec: an inserted row whose \<^verbatim>\<open>id\<close> is \<^verbatim>\<open>undefined\<close> gets the
  column's default, a fresh version id (``assign a fresh version id''). Defaults of
  other columns are not modelled.
\<close>

definition with_default_id :: "string \<Rightarrow> row \<Rightarrow> row" where
  "with_default_id uuid values =
     (if get_prop values ''id'' = Undefined then AList.update ''id'' (Str uuid) values
      else values)"

text \<open>
  Modelled from the spec: \<^verbatim>\<open>db.transaction\<close>. The body runs on the state; when it
  throws, its writes are rolled back and the error is passed on.
\<close>

definition transaction :: "(db \<Rightarrow> (error + 'a) \<times> db) \<Rightarrow> db \<Rightarrow> (error + 'a) \<times> db" where
  "transaction body s =
     (let s0 = s\<lparr>tx_opened := Suc (tx_opened s)\<rparr> in
      case body s0 of
        (Inl e, s') \<Rightarrow> (Inl e, s0)
      | (Inr x, s') \<Rightarrow> (Inr x, s'))"

definition rejects :: "env \<Rightarrow> nat \<Rightarrow> bool" where
  "rejects e n = (failing_write e = Some n)"

subsection \<open>Helper: getEntityType\<close>

text \<open>
  The object literal \<^verbatim>\<open>mapping\<close> and \<^verbatim>\<open>mapping[tableName] || 'organization'\<close>. The
  function is declared to return \<^verbatim>\<open>any\<close>.
\<close>

definition entity_type_mapping :: row where
  "entity_type_mapping =
     [(''organizations'', Str ''organization''),
      (''users'', Str ''user''),
      (''roles'', Str ''role''),
      (''staff'', Str ''staff''),
      (''shifts'', Str ''shift''),
      (''shift_assignments'', Str ''shift_assignment'')]"

definition getEntityType :: "string \<Rightarrow> val" where
  "getEntityType tableName =
     (let m = get_prop entity_type_mapping tableName
      in if truthy m then m else Str ''organization'')"

text \<open>The names of the tables the schema declares (its \<^verbatim>\<open>pgTable\<close> calls).\<close>

definition schema_table_names :: "string list" where
  "schema_table_names =
     [''organizations'', ''users'', ''roles'', ''staff'', ''staff_addresses'',
      ''staff_roles'', ''shifts'', ''shift_assignments'', ''shift_assignment_logs'',
      ''audit_logs'']"

subsection \<open>createNewVersion\<close>

text \<open>The forEach loop that fills \<^verbatim>\<open>oldValues\<close> and \<^verbatim>\<open>newValues\<close>.\<close>

definition snapshot :: "row \<Rightarrow> string list \<Rightarrow> row" where
  "snapshot source ks = fold (\<lambda>k acc. AList.update k (get_prop source k) acc) ks []"

text \<open>\<^verbatim>\<open>x || null\<close>.\<close>

definition or_null :: "val \<Rightarrow> val" where
  "or_null v = (if truthy v then v else Null)"

text \<open>The values of the UPDATE that retires the current version (step 2).\<close>

definition retire_set :: "int \<Rightarrow> row" where
  "retire_set now =
     [(''valid_to'', Date now),
      (''is_current'', Bool False),
      (''updated_at'', Date now)]"

text \<open>The values of the INSERT that creates the new version (step 3).\<close>

definition new_version_values :: "row \<Rightarrow> row \<Rightarrow> string \<Rightarrow> int \<Rightarrow> row" where
  "new_version_values current updates currentId now =
     spread (spread current updates)
       [(''id'', Undefined),
        (''previous_version_id'', Str currentId),
        (''valid_from'', Date now),
        (''valid_to'', Null),
        (''is_current'', Bool True),
        (''created_at'', get_prop current ''created_at''),
        (''updated_at'', Date now)]"

text \<open>
  The body of the transaction, statement by statement. It returns the state with the
  writes made so far also when it throws; \<open>transaction\<close> discards them then.
\<close>

definition createNewVersion_tx ::
  "env \<Rightarrow> string \<Rightarrow> string \<Rightarrow> row \<Rightarrow> string option \<Rightarrow> string option \<Rightarrow>
   string option \<Rightarrow> string option \<Rightarrow> row option \<Rightarrow> db \<Rightarrow> (error + row) \<times> db" where
  "createNewVersion_tx e table currentId updates performedBy performedByStaff
      ipAddress userAgent metadata s =
     (case findFirst (\<lambda>r. get_prop r ''id'' = Str currentId \<and> get_prop r ''is_current'' = Bool True)
             (entity_tables s table) of
        None \<Rightarrow> (Inl (Error ''Current version not found''), s)
      | Some current \<Rightarrow>
          let now = date_now e in
          if rejects e 0 then (Inl StoreFailure, s) else
          let s1 = s\<lparr>entity_tables := (entity_tables s)(table :=
                     update_where (\<lambda>r. get_prop r ''id'' = Str currentId)
                       (\<lambda>r. spread r (retire_set now))
                       (entity_tables s table))\<rparr> in
          if rejects e 1 then (Inl StoreFailure, s1) else
          let newVersion = with_default_id (row_uuid e)
                (new_version_values current updates currentId now);
              s2 = s1\<lparr>entity_tables := (entity_tables s1)(table :=
                     insert_row newVersion (entity_tables s1 table))\<rparr>;
              changedFields = object_keys updates;
              oldValues = snapshot current changedFields;
              newValues = snapshot updates changedFields
          in
          if rejects e 2 then (Inl StoreFailure, s2) else
          let s3 = s2\<lparr>audit_logs := insert_row
                     \<lparr>al_id = audit_uuid e,
                      al_organization_id = or_null (get_prop current ''organization_id''),
                      al_entity_type = getEntityType table,
                      al_entity_id = get_prop newVersion ''id'',
                      al_action = update,
                      al_performed_by = performedBy,
                      al_performed_by_staff = performedByStaff,
                      al_old_values = Some oldValues,
                      al_new_values = Some newValues,
                      al_changed_fields = Some changedFields,
                      al_ip_address = ipAddress,
                      al_user_agent = userAgent,
                      al_metadata = metadata,
                      al_created_at = db_now e\<rparr>
                     (audit_logs s2)\<rparr>
          in (Inr newVersion, s3))"

definition createNewVersion ::
  "env \<Rightarrow> string \<Rightarrow> string \<Rightarrow> row \<Rightarrow> string option \<Rightarrow> string option \<Rightarrow>
   string option \<Rightarrow> string option \<Rightarrow> row option \<Rightarrow> db \<Rightarrow> (error + row) \<times> db" where
  "createNewVersion e table currentId updates performedBy performedByStaff
      ipAddress userAgent metadata s =
     transaction (createNewVersion_tx e table currentId updates performedBy performedByStaff
       ipAddress userAgent metadata) s"

subsection \<open>getEntityHistory\<close>

text \<open>
  The while loop. The loop variable \<^verbatim>\<open>currentId\<close> starts as the string \<^verbatim>\<open>entityId\<close> and
  then holds whatever \<^verbatim>\<open>previous_version_id\<close> the visited row has. The loop has no bound
  in the source, so the model is a partial function: \<open>None\<close> means that the call does
  not return.
\<close>

partial_function (option) getEntityHistory_loop :: "row list \<Rightarrow> val \<Rightarrow> row list \<Rightarrow> row list option" where
  "getEntityHistory_loop tbl currentId versions =
     (if truthy currentId then
        (case findFirst (\<lambda>r. get_prop r ''id'' = currentId) tbl of
           None \<Rightarrow> Some versions
         | Some version \<Rightarrow>
             getEntityHistory_loop tbl (get_prop version ''previous_version_id'')
               (versions @ [version]))
      else Some versions)"

text \<open>
  \<^verbatim>\<open>new Date(x).getTime()\<close>. The columns it is applied to are \<^verbatim>\<open>timestamp(...).notNull()\<close>,
  which the store reads as Date objects. Date parsing and NaN (strings, objects,
  \<^verbatim>\<open>undefined\<close>) are not modelled: such values read 0.
\<close>

fun getTime :: "val \<Rightarrow> int" where
  "getTime (Date t) = t"
| "getTime (Num n) = n"
| "getTime (Bool b) = (if b then 1 else 0)"
| "getTime v = 0"

text \<open>
  \<^verbatim>\<open>versions.sort((a, b) => getTime(b.valid_from) - getTime(a.valid_from))\<close>: a stable sort,
  newest first.
\<close>

definition sort_newest_first :: "row list \<Rightarrow> row list" where
  "sort_newest_first versions = sort_key (\<lambda>v. - getTime (get_prop v ''valid_from'')) versions"

definition getEntityHistory :: "string \<Rightarrow> string \<Rightarrow> db \<Rightarrow> row list option" where
  "getEntityHistory table entityId s =
     map_option sort_newest_first
       (getEntityHistory_loop (entity_tables s table) (Str entityId) [])"

subsection \<open>getCurrentVersion\<close>

text \<open>
  The result of a call that returns is \<open>Some current\<close>, where \<open>current\<close> is the row or
  \<open>None\<close> for \<^verbatim>\<open>null\<close>; the outer \<open>None\<close> is a call that does not return.
\<close>

partial_function (option) getCurrentVersion_loop :: "row list \<Rightarrow> val \<Rightarrow> row option option" where
  "getCurrentVersion_loop tbl currentId =
     (if truthy currentId then
        (case findFirst (\<lambda>r. get_prop r ''id'' = currentId) tbl of
           None \<Rightarrow> Some None
         | Some version \<Rightarrow>
             if truthy (get_prop version ''is_current'') then Some (Some version)
             else
               (case findFirst (\<lambda>r. get_prop r ''previous_version_id'' = currentId) tbl of
                  None \<Rightarrow> Some (Some version)
                | Some newer \<Rightarrow> getCurrentVersion_loop tbl (get_prop newer ''id'')))
      else Some None)"

definition getCurrentVersion :: "string \<Rightarrow> string \<Rightarrow> db \<Rightarrow> row option option" where
  "getCurrentVersion table originalId s =
     getCurrentVersion_loop (entity_tables s table) (Str originalId)"

subsection \<open>getOrganizationAuditLogs\<close>

text \<open>
  The conditions are collected as the source collects them; \<^verbatim>\<open>startDate\<close> and \<^verbatim>\<open>endDate\<close>
  are parameters of the function that its body never reads. \<^verbatim>\<open>orderBy desc(created_at)\<close>
  is a stable sort here (the store leaves the order of equal timestamps open), and the
  joined relations (\<^verbatim>\<open>with\<close>) are left out of the result rows.
\<close>

definition getOrganizationAuditLogs ::
  "string \<Rightarrow> int option \<Rightarrow> int option \<Rightarrow> string option \<Rightarrow> audit_action option \<Rightarrow>
   nat option \<Rightarrow> db \<Rightarrow> audit_log list" where
  "getOrganizationAuditLogs organizationId startDate endDate entityType action limit s =
     (let conditions0 = [\<lambda>l. al_organization_id l = Str organizationId];
          conditions1 = (case entityType of
                           None \<Rightarrow> conditions0
                         | Some t \<Rightarrow> if t \<noteq> [] then conditions0 @ [\<lambda>l. al_entity_type l = Str t]
                                     else conditions0);
          conditions2 = (case action of
                           None \<Rightarrow> conditions1
                         | Some a \<Rightarrow> conditions1 @ [\<lambda>l. al_action l = a])
      in take (case limit of None \<Rightarrow> 100 | Some n \<Rightarrow> n)
           (sort_key (\<lambda>l. - al_created_at l)
              (filter (\<lambda>l. list_all (\<lambda>c. c l) conditions2) (audit_logs s))))"

subsection \<open>updateAssignmentStatus\<close>

fun status_name :: "response_status \<Rightarrow> string" where
  "status_name pending = ''pending''"
| "status_name accepted = ''accepted''"
| "status_name declined = ''declined''"

text \<open>
  The values of the UPDATE (step 1), applied to a row. \<^verbatim>\<open>response_message\<close> is written
  only when \<^verbatim>\<open>message\<close> is given: the store does not write a property that is
  \<^verbatim>\<open>undefined\<close>. The two timestamps are two readings of the clock.
\<close>

definition set_status :: "env \<Rightarrow> response_status \<Rightarrow> string option \<Rightarrow> assignment \<Rightarrow> assignment" where
  "set_status e newStatus message a =
     a\<lparr>sa_response_status := newStatus,
       sa_response_message := (case message of None \<Rightarrow> sa_response_message a | Some m \<Rightarrow> Some m),
       sa_responded_at := Some (date_now e),
       sa_updated_at := date_now2 e\<rparr>"

text \<open>
  The body of the transaction. \<^verbatim>\<open>[updatedAssignment]\<close> is the first row the UPDATE
  returns, that is the first updated row, and \<^verbatim>\<open>undefined\<close> (\<open>None\<close>) when it returns none.
\<close>

definition updateAssignmentStatus_tx ::
  "env \<Rightarrow> string \<Rightarrow> response_status \<Rightarrow> string option \<Rightarrow> string option \<Rightarrow> string option \<Rightarrow>
   row option \<Rightarrow> string option \<Rightarrow> string option \<Rightarrow> response_status \<Rightarrow> db \<Rightarrow>
   (error + assignment option) \<times> db" where
  "updateAssignmentStatus_tx e assignmentId newStatus message changedBy changedByStaff
      metadata ipAddress userAgent previousStatus s =
     (if rejects e 0 then (Inl StoreFailure, s) else
      let updated = update_where (\<lambda>a. sa_id a = assignmentId)
                      (set_status e newStatus message) (shift_assignments s);
          updatedAssignment = findFirst (\<lambda>a. sa_id a = assignmentId) updated;
          s1 = s\<lparr>shift_assignments := updated\<rparr>
      in
      if rejects e 1 then (Inl StoreFailure, s1) else
      let s2 = s1\<lparr>shift_assignment_logs := insert_row
                 \<lparr>sl_id = log_uuid e,
                  sl_assignment_id = assignmentId,
                  sl_previous_status = Some previousStatus,
                  sl_new_status = newStatus,
                  sl_changed_by = changedBy,
                  sl_changed_by_staff = changedByStaff,
                  sl_message = message,
                  sl_metadata = metadata,
                  sl_created_at = db_now e\<rparr>
                 (shift_assignment_logs s1)\<rparr>
      in
      if rejects e 2 then (Inl StoreFailure, s2) else
      let s3 = s2\<lparr>audit_logs := insert_row
                 \<lparr>al_id = audit_uuid e,
                  al_organization_id = Null,
                  al_entity_type = Str ''shift_assignment'',
                  al_entity_id = Str assignmentId,
                  al_action = status_change,
                  al_performed_by = changedBy,
                  al_performed_by_staff = changedByStaff,
                  al_old_values = Some [(''response_status'', Str (status_name previousStatus))],
                  al_new_values = Some [(''response_status'', Str (status_name newStatus))],
                  al_changed_fields = Some [''response_status''],
                  al_ip_address = ipAddress,
                  al_user_agent = userAgent,
                  al_metadata = metadata,
                  al_created_at = db_now e\<rparr>
                 (audit_logs s2)\<rparr>
      in (Inr updatedAssignment, s3))"

definition updateAssignmentStatus ::
  "env \<Rightarrow> string \<Rightarrow> response_status \<Rightarrow> string option \<Rightarrow> string option \<Rightarrow> string option \<Rightarrow>
   row option \<Rightarrow> string option \<Rightarrow> string option \<Rightarrow> db \<Rightarrow>
   (error + assignment option) \<times> db" where
  "updateAssignmentStatus e assignmentId newStatus message changedBy changedByStaff
      metadata ipAddress userAgent s =
     (case findFirst (\<lambda>a. sa_id a = assignmentId) (shift_assignments s) of
        None \<Rightarrow> (Inl (Error ''Assignment not found''), s)
      | Some currentAssignment \<Rightarrow>
          let previousStatus = sa_response_status currentAssignment in
          if previousStatus = newStatus then (Inr (Some currentAssignment), s)
          else transaction
                 (updateAssignmentStatus_tx e assignmentId newStatus message changedBy
                    changedByStaff metadata ipAddress userAgent previousStatus) s)"

subsection \<open>formatAssignmentHistory\<close>

text \<open>
  A log row as \<^verbatim>\<open>getAssignmentHistory\<close> returns it: with the relations \<^verbatim>\<open>changedByUser\<close>
  and \<^verbatim>\<open>changedByStaffMember\<close> resolved to \<^verbatim>\<open>{id, name, email}\<close> or \<^verbatim>\<open>null\<close>.
\<close>

record user_ref =
  ur_id :: string
  ur_name :: string
  ur_email :: string

record history_entry = assignment_log +
  changedByUser :: "user_ref option"
  changedByStaffMember :: "user_ref option"

text \<open>The arrow U+2192 of the template string, in UTF-8, and the double quote.\<close>

definition arrow :: string where
  "arrow = [CHR 0xE2, CHR 0x86, CHR 0x92]"

definition dquote :: string where
  "dquote = [CHR 0x22]"

text \<open>
  \<^verbatim>\<open>toLocaleString('de-DE')\<close> belongs to the runtime and is a parameter. The statuses of
  the enum are non-empty strings, so \<^verbatim>\<open>log.previous_status ? ... : ...\<close> tests for
  \<^verbatim>\<open>null\<close>; \<^verbatim>\<open>if (log.message)\<close> is false for \<^verbatim>\<open>null\<close> and for the empty string.
\<close>

definition format_line :: "(int \<Rightarrow> string) \<Rightarrow> history_entry \<Rightarrow> string" where
  "format_line toLocaleString log =
     (let actor = (case changedByUser log of
                     Some u \<Rightarrow> ''Manager '' @ ur_name u
                   | None \<Rightarrow>
                       (case changedByStaffMember log of
                          Some m \<Rightarrow> ''Staff '' @ ur_name m
                        | None \<Rightarrow> ''System''));
          statusChange = (case sl_previous_status log of
                            Some p \<Rightarrow> status_name p @ '' '' @ arrow @ '' '' @ status_name (sl_new_status log)
                          | None \<Rightarrow> ''Status gesetzt: '' @ status_name (sl_new_status log));
          timestamp = toLocaleString (sl_created_at log);
          line = ''['' @ timestamp @ ''] '' @ actor @ '': '' @ statusChange
      in if truthy_str (sl_message log)
         then line @ '' - '' @ dquote @ (case sl_message log of Some m \<Rightarrow> m | None \<Rightarrow> []) @ dquote
         else line)"

definition formatAssignmentHistory :: "(int \<Rightarrow> string) \<Rightarrow> history_entry list \<Rightarrow> string list" where
  "formatAssignmentHistory toLocaleString logs = map (format_line toLocaleString) logs"

subsection \<open>Example states\<close>

text \<open>
  The staff lineage of the spec's scenario: row A as created, row A after its
  retirement at time 200, and its successor B.
\<close>

definition row_A :: row where
  "row_A =
     [(''id'', Str ''A''),
      (''organization_id'', Str ''org1''),
      (''name'', Str ''John Doe''),
      (''valid_from'', Date 100),
      (''valid_to'', Null),
      (''is_current'', Bool True),
      (''previous_version_id'', Null),
      (''created_at'', Date 100),
      (''updated_at'', Date 100)]"

definition row_A_retired :: row where
  "row_A_retired =
     [(''id'', Str ''A''),
      (''organization_id'', Str ''org1''),
      (''name'', Str ''John Doe''),
      (''valid_from'', Date 100),
      (''valid_to'', Date 200),
      (''is_current'', Bool False),
      (''previous_version_id'', Null),
      (''created_at'', Date 100),
      (''updated_at'', Date 200)]"

definition row_B :: row where
  "row_B =
     [(''id'', Str ''B''),
      (''organization_id'', Str ''org1''),
      (''name'', Str ''Jane Doe''),
      (''valid_from'', Date 200),
      (''valid_to'', Null),
      (''is_current'', Bool True),
      (''previous_version_id'', Str ''A''),
      (''created_at'', Date 100),
      (''updated_at'', Date 200)]"

definition db_with :: "string \<Rightarrow> row list \<Rightarrow> db" where
  "db_with table rows =
     \<lparr>entity_tables = (\<lambda>t. if t = table then rows else []),
      shift_assignments = [],
      shift_assignment_logs = [],
      audit_logs = [],
      tx_opened = 0\<rparr>"

definition env_200 :: env where
  "env_200 =
     \<lparr>date_now = 200, date_now2 = 200, row_uuid = ''B'', log_uuid = ''L'',
      audit_uuid = ''U'', db_now = 200, failing_write = None\<rparr>"

text \<open>A staff address, a row of a table that \<^verbatim>\<open>getEntityType\<close> does not register.\<close>

definition row_addr :: row where
  "row_addr =
     [(''id'', Str ''D''),
      (''staff_id'', Str ''B''),
      (''city'', Str ''Bonn''),
      (''valid_from'', Date 100),
      (''valid_to'', Null),
      (''is_current'', Bool True),
      (''previous_version_id'', Null),
      (''created_at'', Date 100),
      (''updated_at'', Date 100)]"

subsection \<open>Invariant I1 and the predecessor edges\<close>

text \<open>
  A lineage is given as the list of its rows from the head (the current version) back to
  the root. \<open>chained\<close>: each row names the next one as its predecessor and the root has
  \<^verbatim>\<open>previous_version_id = null\<close>. \<open>invariant_I1\<close>: the rows of the lineage are rows of
  the table and form a simple path; ids are a primary key of the table and are truthy
  (a uuid is not the empty string); at most one row references any given row as its
  predecessor; the head, and only the head, is current; \<^verbatim>\<open>valid_from\<close> is a timestamp.
\<close>

fun is_date :: "val \<Rightarrow> bool" where
  "is_date (Date t) = True"
| "is_date v = False"

fun chained :: "row list \<Rightarrow> bool" where
  "chained [] = True"
| "chained [r] = (get_prop r ''previous_version_id'' = Null)"
| "chained (r # r' # rs) =
     (get_prop r ''previous_version_id'' = get_prop r' ''id'' \<and> chained (r' # rs))"

definition invariant_I1 :: "row list \<Rightarrow> row list \<Rightarrow> bool" where
  "invariant_I1 tbl lineage \<longleftrightarrow>
     lineage \<noteq> []
     \<and> set lineage \<subseteq> set tbl
     \<and> distinct (map (\<lambda>r. get_prop r ''id'') tbl)
     \<and> distinct (filter truthy (map (\<lambda>r. get_prop r ''previous_version_id'') tbl))
     \<and> distinct lineage
     \<and> list_all (\<lambda>r. truthy (get_prop r ''id'')) lineage
     \<and> chained lineage
     \<and> get_prop (hd lineage) ''is_current'' = Bool True
     \<and> list_all (\<lambda>r. get_prop r ''is_current'' = Bool False) (tl lineage)
     \<and> list_all (\<lambda>r. is_date (get_prop r ''valid_from'')) lineage"




text \<open>
  The assignment of the spec's scenario, pending, in a state with no log rows; and the
  environment of a call in which the store rejects no write.
\<close>

definition assignment_1 :: assignment where
  "assignment_1 =
     \<lparr>sa_id = ''as1'', sa_shift_id = ''sh1'', sa_staff_id = ''B'', sa_role_id = None,
      sa_response_status = pending, sa_response_message = None, sa_invited_at = 10,
      sa_responded_at = None, sa_email_sent_at = None, sa_created_at = 10,
      sa_updated_at = 10\<rparr>"

definition db_assignments :: "assignment list \<Rightarrow> db" where
  "db_assignments rows =
     \<lparr>entity_tables = (\<lambda>t. []),
      shift_assignments = rows,
      shift_assignment_logs = [],
      audit_logs = [],
      tx_opened = 0\<rparr>"

definition env_accept :: env where
  "env_accept =
     \<lparr>date_now = 300, date_now2 = 301, row_uuid = ''R'', log_uuid = ''L1'',
      audit_uuid = ''U1'', db_now = 300, failing_write = None\<rparr>"

text \<open>
  An audit entry of organization \<^verbatim>\<open>org1\<close> created at time 5, and a state that holds
  given audit entries only.
\<close>

definition audit_old :: audit_log where
  "audit_old =
     \<lparr>al_id = ''U0'',
      al_organization_id = Str ''org1'',
      al_entity_type = Str ''staff'',
      al_entity_id = Str ''A'',
      al_action = create,
      al_performed_by = Some ''u1'',
      al_performed_by_staff = None,
      al_old_values = None,
      al_new_values = Some row_A,
      al_changed_fields = None,
      al_ip_address = None,
      al_user_agent = None,
      al_metadata = None,
      al_created_at = 5\<rparr>"

definition db_audit :: "audit_log list \<Rightarrow> db" where
  "db_audit logs =
     \<lparr>entity_tables = (\<lambda>t. []),
      shift_assignments = [],
      shift_assignment_logs = [],
      audit_logs = logs,
      tx_opened = 0\<rparr>"

text \<open>
  Two entries of an assignment history: the first status set by the system without a
  message, and an acceptance by a staff member with a message; and a stand-in for
  \<^verbatim>\<open>toLocaleString('de-DE')\<close>.
\<close>

definition entry_system :: history_entry where
  "entry_system =
     \<lparr>sl_id = ''L0'',
      sl_assignment_id = ''as1'',
      sl_previous_status = None,
      sl_new_status = pending,
      sl_changed_by = None,
      sl_changed_by_staff = None,
      sl_message = None,
      sl_metadata = None,
      sl_created_at = 0,
      changedByUser = None,
      changedByStaffMember = None\<rparr>"

definition entry_staff :: history_entry where
  "entry_staff =
     \<lparr>sl_id = ''L1'',
      sl_assignment_id = ''as1'',
      sl_previous_status = Some pending,
      sl_new_status = accepted,
      sl_changed_by = None,
      sl_changed_by_staff = Some ''B'',
      sl_message = Some ''Available!'',
      sl_metadata = None,
      sl_created_at = 0,
      changedByUser = None,
      changedByStaffMember = Some \<lparr>ur_id = ''B'', ur_name = ''Jane Doe'', ur_email = ''jane@example.org''\<rparr>\<rparr>"

definition de_DE :: "int \<Rightarrow> string" where
  "de_DE t = ''1.1.1970, 01:00:00''"

section \<open>Properties\<close>

subsection \<open>Objects\<close>

lemma get_prop_update:
  "get_prop (AList.update k v r) k' = (if k' = k then v else get_prop r k')"
  by (simp add: get_prop_def update_conv')

lemma map_of_spread_aux:
  "distinct (map fst src) \<Longrightarrow>
   map_of (fold (\<lambda>(k, v). AList.update k v) src t) k =
     (case map_of src k of Some v \<Rightarrow> Some v | None \<Rightarrow> map_of t k)"
proof (induction src arbitrary: t)
  case Nil
  then show ?case by simp
next
  case (Cons p src)
  obtain a b where p: "p = (a, b)" by (cases p)
  from Cons.prems have d: "distinct (map fst src)" and a: "a \<notin> fst ` set src"
    by (auto simp: p)
  from a have none: "map_of src a = None"
    by (simp add: map_of_eq_None_iff)
  show ?case
    using Cons.IH [OF d, of "AList.update a b t"] none
    by (auto simp: p update_conv' split: option.splits)
qed

lemma get_prop_spread:
  "distinct (object_keys src) \<Longrightarrow>
   get_prop (spread t src) k = (if k \<in> set (object_keys src) then get_prop src k else get_prop t k)"
proof -
  assume d: "distinct (object_keys src)"
  then have m: "map_of (spread t src) k =
      (case map_of src k of Some v \<Rightarrow> Some v | None \<Rightarrow> map_of t k)"
    by (simp add: spread_def object_keys_def map_of_spread_aux)
  have "k \<in> set (object_keys src) \<longleftrightarrow> map_of src k \<noteq> None"
    by (simp add: object_keys_def map_of_eq_None_iff)
  with m show ?thesis
    by (auto simp: get_prop_def [of "spread t src"] get_prop_def [of src]
          get_prop_def [of t] split: option.splits)
qed

lemma snapshot_fold_keys:
  "distinct (map fst acc @ ks) \<Longrightarrow>
   map fst (fold (\<lambda>k acc. AList.update k (get_prop src k) acc) ks acc) = map fst acc @ ks"
proof (induction ks arbitrary: acc)
  case Nil
  then show ?case by simp
next
  case (Cons k ks)
  from Cons.prems have nk: "k \<notin> fst ` set acc" by auto
  have upd: "map fst (AList.update k (get_prop src k) acc) = map fst acc @ [k]"
    using nk by (simp add: update_keys)
  show ?case
    using Cons.IH [of "AList.update k (get_prop src k) acc"] Cons.prems upd by simp
qed

lemma object_keys_snapshot:
  "distinct ks \<Longrightarrow> object_keys (snapshot src ks) = ks"
  using snapshot_fold_keys [of "[]" ks src] by (simp add: snapshot_def object_keys_def)

lemma map_of_snapshot_fold:
  "map_of (fold (\<lambda>k acc. AList.update k (get_prop src k) acc) ks acc) k =
     (if k \<in> set ks then Some (get_prop src k) else map_of acc k)"
  by (induction ks arbitrary: acc) (auto simp: update_conv')

lemma get_prop_snapshot:
  "get_prop (snapshot src ks) k = (if k \<in> set ks then get_prop src k else get_prop [] k)"
proof -
  have "map_of (snapshot src ks) k = (if k \<in> set ks then Some (get_prop src k) else None)"
    by (simp add: snapshot_def map_of_snapshot_fold)
  then show ?thesis
    by (simp add: get_prop_def [of "snapshot src ks"] get_prop_def [of "[]"])
qed

subsection \<open>The store\<close>

lemma findFirst_Some:
  "findFirst p rows = Some r \<Longrightarrow> r \<in> set rows \<and> p r"
  by (auto simp: findFirst_def find_Some_iff)

lemma findFirst_None:
  "findFirst p rows = None \<longleftrightarrow> (\<forall>r \<in> set rows. \<not> p r)"
  by (auto simp: findFirst_def find_None_iff)

subsection \<open>createNewVersion\<close>

lemma createNewVersion_Inr:
  assumes ok: "createNewVersion e t cid ups pb pbs ip ua md s = (Inr newRow, s')"
    and cur: "findFirst (\<lambda>r. get_prop r ''id'' = Str cid \<and> get_prop r ''is_current'' = Bool True)
                (entity_tables s t) = Some cur"
  shows "newRow = with_default_id (row_uuid e) (new_version_values cur ups cid (date_now e))"
    and "entity_tables s' = (entity_tables s)(t :=
           update_where (\<lambda>r. get_prop r ''id'' = Str cid) (\<lambda>r. spread r (retire_set (date_now e)))
             (entity_tables s t) @ [newRow])"
    and "audit_logs s' = audit_logs s @
           [\<lparr>al_id = audit_uuid e,
             al_organization_id = or_null (get_prop cur ''organization_id''),
             al_entity_type = getEntityType t,
             al_entity_id = get_prop newRow ''id'',
             al_action = update,
             al_performed_by = pb,
             al_performed_by_staff = pbs,
             al_old_values = Some (snapshot cur (object_keys ups)),
             al_new_values = Some (snapshot ups (object_keys ups)),
             al_changed_fields = Some (object_keys ups),
             al_ip_address = ip,
             al_user_agent = ua,
             al_metadata = md,
             al_created_at = db_now e\<rparr>]"
    and "shift_assignments s' = shift_assignments s"
    and "shift_assignment_logs s' = shift_assignment_logs s"
    and "tx_opened s' = Suc (tx_opened s)"
  using ok cur
  by (auto simp: createNewVersion_def transaction_def createNewVersion_tx_def Let_def
        insert_row_def split: if_splits)

lemma get_prop_new_version_values:
  "get_prop (with_default_id u (new_version_values cur ups cid now)) k =
     (if k = ''id'' then Str u
      else if k = ''previous_version_id'' then Str cid
      else if k = ''valid_from'' then Date now
      else if k = ''valid_to'' then Null
      else if k = ''is_current'' then Bool True
      else if k = ''created_at'' then get_prop cur ''created_at''
      else if k = ''updated_at'' then Date now
      else get_prop (spread cur ups) k)"
  by (simp add: with_default_id_def new_version_values_def spread_def [of _ "_ # _"]
        get_prop_update)

lemma get_prop_retire:
  "get_prop (spread r (retire_set now)) k =
     (if k = ''valid_to'' then Date now
      else if k = ''is_current'' then Bool False
      else if k = ''updated_at'' then Date now
      else get_prop r k)"
  by (simp add: retire_set_def spread_def get_prop_update)

text \<open>
  Claim C1. A successful \<^verbatim>\<open>createNewVersion\<close> on a table in which a row with id
  \<open>cid\<close> and \<^verbatim>\<open>is_current = true\<close> exists (\<open>cur\<close>, the row \<^verbatim>\<open>findFirst\<close> answers)
  retires every row with that id (\<^verbatim>\<open>valid_to = now\<close>, \<^verbatim>\<open>is_current = false\<close>, nothing else
  changed but \<^verbatim>\<open>updated_at\<close>), leaves the other rows and the other tables as they are, and
  appends exactly one row: it has the fresh id, \<^verbatim>\<open>previous_version_id = cid\<close>,
  \<^verbatim>\<open>valid_from = now\<close>, \<^verbatim>\<open>valid_to = null\<close>, \<^verbatim>\<open>is_current = true\<close>, the \<^verbatim>\<open>created_at\<close> of
  \<open>cur\<close>, \<^verbatim>\<open>updated_at = now\<close>, and every other property is that of the updates where
  they have it and that of \<open>cur\<close> otherwise. Exactly one audit entry is appended: action
  \<^verbatim>\<open>update\<close>, entity id the id of the new row, changed fields the keys of the updates,
  old and new snapshots with exactly these keys, holding the values of \<open>cur\<close> and of the
  updates.
\<close>

theorem createNewVersion_retires_and_splices:
  assumes ok: "createNewVersion e t cid ups pb pbs ip ua md s = (Inr newRow, s')"
    and cur: "findFirst (\<lambda>r. get_prop r ''id'' = Str cid \<and> get_prop r ''is_current'' = Bool True)
                (entity_tables s t) = Some cur"
    and keys: "distinct (object_keys ups)"
  shows
    "cur \<in> set (entity_tables s t)
     \<and> length (entity_tables s' t) = Suc (length (entity_tables s t))
     \<and> last (entity_tables s' t) = newRow
     \<and> (\<forall>i < length (entity_tables s t).
          (get_prop (entity_tables s t ! i) ''id'' = Str cid \<longrightarrow>
             get_prop (entity_tables s' t ! i) ''valid_to'' = Date (date_now e)
             \<and> get_prop (entity_tables s' t ! i) ''is_current'' = Bool False
             \<and> (\<forall>k. k \<notin> {''valid_to'', ''is_current'', ''updated_at''} \<longrightarrow>
                   get_prop (entity_tables s' t ! i) k = get_prop (entity_tables s t ! i) k))
          \<and> (get_prop (entity_tables s t ! i) ''id'' \<noteq> Str cid \<longrightarrow>
               entity_tables s' t ! i = entity_tables s t ! i))
     \<and> (\<forall>t'. t' \<noteq> t \<longrightarrow> entity_tables s' t' = entity_tables s t')
     \<and> get_prop newRow ''id'' = Str (row_uuid e)
     \<and> get_prop newRow ''previous_version_id'' = Str cid
     \<and> get_prop newRow ''valid_from'' = Date (date_now e)
     \<and> get_prop newRow ''valid_to'' = Null
     \<and> get_prop newRow ''is_current'' = Bool True
     \<and> get_prop newRow ''created_at'' = get_prop cur ''created_at''
     \<and> get_prop newRow ''updated_at'' = Date (date_now e)
     \<and> (\<forall>k. k \<notin> {''id'', ''previous_version_id'', ''valid_from'', ''valid_to'', ''is_current'',
                   ''created_at'', ''updated_at''} \<longrightarrow>
            get_prop newRow k =
              (if k \<in> set (object_keys ups) then get_prop ups k else get_prop cur k))
     \<and> audit_logs s' = audit_logs s @ [last (audit_logs s')]
     \<and> al_action (last (audit_logs s')) = update
     \<and> al_entity_id (last (audit_logs s')) = get_prop newRow ''id''
     \<and> al_changed_fields (last (audit_logs s')) = Some (object_keys ups)
     \<and> map_option object_keys (al_old_values (last (audit_logs s'))) = Some (object_keys ups)
     \<and> map_option object_keys (al_new_values (last (audit_logs s'))) = Some (object_keys ups)
     \<and> map_option (\<lambda>ov. map (get_prop ov) (object_keys ups)) (al_old_values (last (audit_logs s')))
         = Some (map (get_prop cur) (object_keys ups))
     \<and> map_option (\<lambda>nv. map (get_prop nv) (object_keys ups)) (al_new_values (last (audit_logs s')))
         = Some (map (get_prop ups) (object_keys ups))"
proof -
  note R = createNewVersion_Inr [OF ok cur]
  let ?old = "entity_tables s t"
  have new_eq: "newRow = with_default_id (row_uuid e) (new_version_values cur ups cid (date_now e))"
    by (rule R(1))
  have tbl: "entity_tables s' t =
      update_where (\<lambda>r. get_prop r ''id'' = Str cid) (\<lambda>r. spread r (retire_set (date_now e))) ?old
        @ [newRow]"
    by (simp add: R(2))
  have c1: "cur \<in> set ?old"
    using findFirst_Some [OF cur] by simp
  have c2: "length (entity_tables s' t) = Suc (length ?old)"
    by (simp add: tbl update_where_def)
  have c3: "last (entity_tables s' t) = newRow"
    by (simp add: tbl)
  have c4: "\<forall>i < length ?old.
          (get_prop (?old ! i) ''id'' = Str cid \<longrightarrow>
             get_prop (entity_tables s' t ! i) ''valid_to'' = Date (date_now e)
             \<and> get_prop (entity_tables s' t ! i) ''is_current'' = Bool False
             \<and> (\<forall>k. k \<notin> {''valid_to'', ''is_current'', ''updated_at''} \<longrightarrow>
                   get_prop (entity_tables s' t ! i) k = get_prop (?old ! i) k))
          \<and> (get_prop (?old ! i) ''id'' \<noteq> Str cid \<longrightarrow>
               entity_tables s' t ! i = ?old ! i)"
    by (simp add: tbl update_where_def nth_append get_prop_retire)
  have c5: "\<forall>t'. t' \<noteq> t \<longrightarrow> entity_tables s' t' = entity_tables s t'"
    by (simp add: R(2))
  have c6: "get_prop newRow ''id'' = Str (row_uuid e)
     \<and> get_prop newRow ''previous_version_id'' = Str cid
     \<and> get_prop newRow ''valid_from'' = Date (date_now e)
     \<and> get_prop newRow ''valid_to'' = Null
     \<and> get_prop newRow ''is_current'' = Bool True
     \<and> get_prop newRow ''created_at'' = get_prop cur ''created_at''
     \<and> get_prop newRow ''updated_at'' = Date (date_now e)"
    by (simp add: new_eq get_prop_new_version_values)
  have c7: "\<forall>k. k \<notin> {''id'', ''previous_version_id'', ''valid_from'', ''valid_to'', ''is_current'',
                   ''created_at'', ''updated_at''} \<longrightarrow>
            get_prop newRow k =
              (if k \<in> set (object_keys ups) then get_prop ups k else get_prop cur k)"
    using keys by (simp add: new_eq get_prop_new_version_values get_prop_spread)
  have last_eq: "last (audit_logs s') = \<lparr>al_id = audit_uuid e,
             al_organization_id = or_null (get_prop cur ''organization_id''),
             al_entity_type = getEntityType t,
             al_entity_id = get_prop newRow ''id'',
             al_action = update,
             al_performed_by = pb,
             al_performed_by_staff = pbs,
             al_old_values = Some (snapshot cur (object_keys ups)),
             al_new_values = Some (snapshot ups (object_keys ups)),
             al_changed_fields = Some (object_keys ups),
             al_ip_address = ip,
             al_user_agent = ua,
             al_metadata = md,
             al_created_at = db_now e\<rparr>"
    by (simp add: R(3))
  have c8: "audit_logs s' = audit_logs s @ [last (audit_logs s')]"
    by (simp add: R(3))
  have c9: "al_action (last (audit_logs s')) = update
     \<and> al_entity_id (last (audit_logs s')) = get_prop newRow ''id''
     \<and> al_changed_fields (last (audit_logs s')) = Some (object_keys ups)"
    by (simp add: last_eq)
  have c10: "map_option object_keys (al_old_values (last (audit_logs s'))) = Some (object_keys ups)
     \<and> map_option object_keys (al_new_values (last (audit_logs s'))) = Some (object_keys ups)"
    using keys by (simp add: last_eq object_keys_snapshot)
  have c11: "map_option (\<lambda>ov. map (get_prop ov) (object_keys ups)) (al_old_values (last (audit_logs s')))
         = Some (map (get_prop cur) (object_keys ups))
     \<and> map_option (\<lambda>nv. map (get_prop nv) (object_keys ups)) (al_new_values (last (audit_logs s')))
         = Some (map (get_prop ups) (object_keys ups))"
    by (simp add: last_eq get_prop_snapshot)
  from c1 c2 c3 c4 c5 c6 c7 c8 c9 c10 c11 show ?thesis
    by blast
qed

theorem createNewVersion_witness:
  "findFirst (\<lambda>r. get_prop r ''id'' = Str ''A'' \<and> get_prop r ''is_current'' = Bool True)
     (entity_tables (db_with ''staff'' [row_A]) ''staff'') = Some row_A
   \<and> distinct (object_keys [(''name'', Str ''Jane Doe'')])
   \<and> fst (createNewVersion env_200 ''staff'' ''A'' [(''name'', Str ''Jane Doe'')]
            (Some ''u1'') None None None None (db_with ''staff'' [row_A])) = Inr row_B
   \<and> length (entity_tables (snd (createNewVersion env_200 ''staff'' ''A''
         [(''name'', Str ''Jane Doe'')] (Some ''u1'') None None None None
         (db_with ''staff'' [row_A]))) ''staff'') = 2
   \<and> get_prop row_B ''previous_version_id'' = Str ''A''
   \<and> get_prop row_B ''name'' = Str ''Jane Doe''
   \<and> al_changed_fields (last (audit_logs (snd (createNewVersion env_200 ''staff'' ''A''
         [(''name'', Str ''Jane Doe'')] (Some ''u1'') None None None None
         (db_with ''staff'' [row_A]))))) = Some [''name'']"
proof -
  let ?s = "db_with ''staff'' [row_A]"
  let ?ups = "[(''name'', Str ''Jane Doe'')]"
  let ?call = "createNewVersion env_200 ''staff'' ''A'' ?ups (Some ''u1'') None None None None ?s"
  have cur: "findFirst (\<lambda>r. get_prop r ''id'' = Str ''A'' \<and> get_prop r ''is_current'' = Bool True)
     (entity_tables ?s ''staff'') = Some row_A"
    by (simp add: findFirst_def db_with_def row_A_def get_prop_def)
  have keys: "distinct (object_keys ?ups)"
    by (simp add: object_keys_def)
  have res: "fst ?call = Inr row_B"
    by (simp add: createNewVersion_def transaction_def createNewVersion_tx_def findFirst_def
      db_with_def row_A_def env_200_def rejects_def get_prop_def update_where_def spread_def
      retire_set_def new_version_values_def with_default_id_def insert_row_def Let_def
      object_keys_def snapshot_def or_null_def getEntityType_def entity_type_mapping_def
      row_B_def)
  then have ok: "?call = (Inr row_B, snd ?call)"
    by (metis prod.collapse)
  from createNewVersion_retires_and_splices [OF ok cur keys] cur keys res
  show ?thesis
    by (simp add: db_with_def object_keys_def get_prop_def)
qed

text \<open>
  Claim C2. When the table has no row with id \<open>cid\<close> and \<^verbatim>\<open>is_current = true\<close> (the id is
  absent, or its row is already retired), \<^verbatim>\<open>createNewVersion\<close> fails with the error
  ``Current version not found''. The body of the transaction has made no write when it
  throws (its state is the state it started from), and after the call every table is
  as before: no row retired, no row inserted, no audit entry appended.
\<close>

theorem createNewVersion_not_found:
  assumes "\<not> (\<exists>r \<in> set (entity_tables s t).
             get_prop r ''id'' = Str cid \<and> get_prop r ''is_current'' = Bool True)"
  shows "fst (createNewVersion e t cid ups pb pbs ip ua md s) = Inl (Error ''Current version not found'')
     \<and> snd (createNewVersion_tx e t cid ups pb pbs ip ua md s) = s
     \<and> entity_tables (snd (createNewVersion e t cid ups pb pbs ip ua md s)) = entity_tables s
     \<and> audit_logs (snd (createNewVersion e t cid ups pb pbs ip ua md s)) = audit_logs s
     \<and> shift_assignments (snd (createNewVersion e t cid ups pb pbs ip ua md s)) = shift_assignments s
     \<and> shift_assignment_logs (snd (createNewVersion e t cid ups pb pbs ip ua md s))
         = shift_assignment_logs s"
proof -
  have none: "findFirst (\<lambda>r. get_prop r ''id'' = Str cid \<and> get_prop r ''is_current'' = Bool True)
                (entity_tables s t) = None"
    using assms by (simp add: findFirst_None)
  have body: "createNewVersion_tx e t cid ups pb pbs ip ua md s' =
      (Inl (Error ''Current version not found''), s')"
    if "entity_tables s' = entity_tables s" for s'
    using none that by (simp add: createNewVersion_tx_def)
  have call: "createNewVersion e t cid ups pb pbs ip ua md s =
      (Inl (Error ''Current version not found''), s\<lparr>tx_opened := Suc (tx_opened s)\<rparr>)"
    by (simp add: createNewVersion_def transaction_def body)
  show ?thesis
    by (simp add: call body)
qed

theorem createNewVersion_not_found_witness:
  "\<not> (\<exists>r \<in> set (entity_tables (db_with ''staff'' [row_A_retired, row_B]) ''staff'').
             get_prop r ''id'' = Str ''A'' \<and> get_prop r ''is_current'' = Bool True)
   \<and> fst (createNewVersion env_200 ''staff'' ''A'' [(''name'', Str ''Jo'')] None None None None None
        (db_with ''staff'' [row_A_retired, row_B])) = Inl (Error ''Current version not found'')
   \<and> entity_tables (snd (createNewVersion env_200 ''staff'' ''A'' [(''name'', Str ''Jo'')]
        None None None None None (db_with ''staff'' [row_A_retired, row_B])))
      = entity_tables (db_with ''staff'' [row_A_retired, row_B])
   \<and> audit_logs (snd (createNewVersion env_200 ''staff'' ''A'' [(''name'', Str ''Jo'')]
        None None None None None (db_with ''staff'' [row_A_retired, row_B]))) = []"
proof -
  have h: "\<not> (\<exists>r \<in> set (entity_tables (db_with ''staff'' [row_A_retired, row_B]) ''staff'').
             get_prop r ''id'' = Str ''A'' \<and> get_prop r ''is_current'' = Bool True)"
    by (simp add: db_with_def row_A_retired_def row_B_def get_prop_def)
  have a: "audit_logs (db_with ''staff'' [row_A_retired, row_B]) = []"
    by (simp add: db_with_def)
  from createNewVersion_not_found [OF h, of env_200 "[(''name'', Str ''Jo'')]" None None None None None] h a
  show ?thesis by simp
qed

lemma createNewVersion_found:
  assumes cur: "findFirst (\<lambda>r. get_prop r ''id'' = Str cid \<and> get_prop r ''is_current'' = Bool True)
                (entity_tables s t) = Some cur"
    and nofail: "failing_write e = None"
  shows "\<exists>s'. createNewVersion e t cid ups pb pbs ip ua md s =
           (Inr (with_default_id (row_uuid e) (new_version_values cur ups cid (date_now e))), s')"
  using cur nofail
  by (simp add: createNewVersion_def transaction_def createNewVersion_tx_def Let_def rejects_def)

lemma getEntityType_unregistered:
  "t \<notin> {''organizations'', ''users'', ''roles'', ''staff'', ''shifts'', ''shift_assignments''}
   \<Longrightarrow> t \<notin> set object_prototype_keys
   \<Longrightarrow> getEntityType t = Str ''organization''"
  by (simp add: getEntityType_def entity_type_mapping_def get_prop_def)

text \<open>
  Claim C10. For every table name outside the six registered names, \<^verbatim>\<open>getEntityType\<close>
  returns \<^verbatim>\<open>'organization'\<close>; and \<^verbatim>\<open>createNewVersion\<close> on such a table, when the current
  row exists and the store rejects no write, succeeds and appends one audit entry whose
  entity type is \<^verbatim>\<open>'organization'\<close>. A table name is the name of a table: the only call
  is \<^verbatim>\<open>getEntityType(table._.name)\<close>, and no table bears the name of a property of
  \<^verbatim>\<open>Object.prototype\<close> (hypothesis \<open>own\<close>; it holds of every table of the schema, see
  \<open>schema_table_names_own\<close> below).
\<close>

theorem getEntityType_falls_back_to_organization:
  assumes unreg: "t \<notin> {''organizations'', ''users'', ''roles'', ''staff'', ''shifts'',
                        ''shift_assignments''}"
    and own: "t \<notin> set object_prototype_keys"
    and cur: "findFirst (\<lambda>r. get_prop r ''id'' = Str cid \<and> get_prop r ''is_current'' = Bool True)
                (entity_tables s t) = Some cur"
    and nofail: "failing_write e = None"
  shows "getEntityType t = Str ''organization''
     \<and> (\<exists>newRow. fst (createNewVersion e t cid ups pb pbs ip ua md s) = Inr newRow)
     \<and> length (audit_logs (snd (createNewVersion e t cid ups pb pbs ip ua md s)))
         = Suc (length (audit_logs s))
     \<and> al_entity_type (last (audit_logs (snd (createNewVersion e t cid ups pb pbs ip ua md s))))
         = Str ''organization''"
proof -
  have et: "getEntityType t = Str ''organization''"
    by (rule getEntityType_unregistered [OF unreg own])
  from createNewVersion_found [OF cur nofail]
  obtain s' where ok: "createNewVersion e t cid ups pb pbs ip ua md s =
       (Inr (with_default_id (row_uuid e) (new_version_values cur ups cid (date_now e))), s')"
    by blast
  note R = createNewVersion_Inr [OF ok cur]
  show ?thesis
    by (simp add: ok et R(3))
qed

theorem getEntityType_falls_back_to_organization_witness:
  "''staff_addresses'' \<notin> {''organizations'', ''users'', ''roles'', ''staff'', ''shifts'',
                        ''shift_assignments''}
   \<and> ''staff_addresses'' \<notin> set object_prototype_keys
   \<and> findFirst (\<lambda>r. get_prop r ''id'' = Str ''D'' \<and> get_prop r ''is_current'' = Bool True)
        (entity_tables (db_with ''staff_addresses'' [row_addr]) ''staff_addresses'') = Some row_addr
   \<and> failing_write env_200 = None
   \<and> getEntityType ''staff_addresses'' = Str ''organization''
   \<and> al_entity_type (last (audit_logs (snd (createNewVersion env_200 ''staff_addresses'' ''D''
        [(''city'', Str ''Koeln'')] None (Some ''B'') None None None
        (db_with ''staff_addresses'' [row_addr]))))) = Str ''organization''"
proof -
  have unreg: "''staff_addresses'' \<notin> {''organizations'', ''users'', ''roles'', ''staff'', ''shifts'',
                        ''shift_assignments''}"
    by simp
  have cur: "findFirst (\<lambda>r. get_prop r ''id'' = Str ''D'' \<and> get_prop r ''is_current'' = Bool True)
        (entity_tables (db_with ''staff_addresses'' [row_addr]) ''staff_addresses'') = Some row_addr"
    by (simp add: findFirst_def db_with_def row_addr_def get_prop_def)
  have nofail: "failing_write env_200 = None"
    by (simp add: env_200_def)
  have own: "''staff_addresses'' \<notin> set object_prototype_keys"
    by (simp add: object_prototype_keys_def)
  from getEntityType_falls_back_to_organization [OF unreg own cur nofail] unreg own cur nofail
  show ?thesis by simp
qed

text \<open>
  The hypothesis \<open>own\<close> excludes no table of the schema, and on every table of the
  schema that is not registered the fallback is taken.
\<close>

lemma schema_table_names_own:
  "list_all (\<lambda>t. t \<notin> set object_prototype_keys) schema_table_names"
  by (simp add: schema_table_names_def object_prototype_keys_def)

lemma getEntityType_on_schema:
  "map getEntityType schema_table_names =
     [Str ''organization'', Str ''user'', Str ''role'', Str ''staff'', Str ''organization'',
      Str ''organization'', Str ''shift'', Str ''shift_assignment'', Str ''organization'',
      Str ''organization'']"
  by (simp add: schema_table_names_def getEntityType_def entity_type_mapping_def get_prop_def
        object_prototype_keys_def)

subsection \<open>getEntityHistory\<close>

lemma findFirst_by_key:
  assumes "distinct (map f rows)" and "r \<in> set rows"
  shows "findFirst (\<lambda>x. f x = f r) rows = Some r"
  using assms
proof (induction rows)
  case Nil
  then show ?case by simp
next
  case (Cons a rows)
  show ?case
  proof (cases "a = r")
    case True
    then show ?thesis by (simp add: findFirst_def)
  next
    case False
    with Cons.prems have "r \<in> set rows" "f a \<noteq> f r" by auto
    with Cons show ?thesis by (simp add: findFirst_def)
  qed
qed

lemma getEntityHistory_loop_chain:
  assumes pk: "distinct (map (\<lambda>r. get_prop r ''id'') tbl)"
  shows "rs \<noteq> [] \<Longrightarrow> set rs \<subseteq> set tbl \<Longrightarrow> list_all (\<lambda>r. truthy (get_prop r ''id'')) rs
    \<Longrightarrow> chained rs
    \<Longrightarrow> getEntityHistory_loop tbl (get_prop (hd rs) ''id'') acc = Some (acc @ rs)"
proof (induction rs arbitrary: acc rule: chained.induct)
  case 1
  then show ?case by simp
next
  case (2 r)
  then have f: "findFirst (\<lambda>x. get_prop x ''id'' = get_prop r ''id'') tbl = Some r"
    using findFirst_by_key [OF pk, of r] by simp
  from 2 show ?case
    by (subst getEntityHistory_loop.simps, subst getEntityHistory_loop.simps) (simp add: f)
next
  case (3 r r' rs)
  then have f: "findFirst (\<lambda>x. get_prop x ''id'' = get_prop r ''id'') tbl = Some r"
    using findFirst_by_key [OF pk, of r] by simp
  from 3 have ih: "getEntityHistory_loop tbl (get_prop r' ''id'') (acc @ [r]) = Some ((acc @ [r]) @ r' # rs)"
    by simp
  from 3 ih show ?case
    by (subst getEntityHistory_loop.simps) (simp add: f)
qed

lemma chained_drop: "chained rs \<Longrightarrow> chained (drop k rs)"
proof (induction rs arbitrary: k rule: chained.induct)
  case 1
  then show ?case by simp
next
  case (2 r)
  then show ?case by (cases k) simp_all
next
  case (3 r r' rs)
  show ?case
  proof (cases k)
    case 0
    with 3 show ?thesis by simp
  next
    case (Suc j)
    with 3 show ?thesis by simp
  qed
qed

lemma sort_newest_first_props:
  "set (sort_newest_first rs) = set rs"
  "distinct (sort_newest_first rs) = distinct rs"
  "sorted_wrt (\<lambda>a b. getTime (get_prop a ''valid_from'') \<ge> getTime (get_prop b ''valid_from''))
     (sort_newest_first rs)"
proof -
  show "set (sort_newest_first rs) = set rs"
    by (simp add: sort_newest_first_def)
  show "distinct (sort_newest_first rs) = distinct rs"
    by (simp add: sort_newest_first_def)
  have "sorted (map (\<lambda>v. - getTime (get_prop v ''valid_from'')) (sort_newest_first rs))"
    unfolding sort_newest_first_def by (rule sorted_sort_key)
  then show "sorted_wrt (\<lambda>a b. getTime (get_prop a ''valid_from'') \<ge> getTime (get_prop b ''valid_from''))
     (sort_newest_first rs)"
    by (simp add: sorted_map)
qed

text \<open>
  What the walk returns. For a lineage that satisfies invariant I1 and any of its nodes,
  \<^verbatim>\<open>getEntityHistory\<close> started from that node returns exactly that node and all its
  predecessors (the rows of the lineage from the node back to the root), without
  duplicates, sorted by \<^verbatim>\<open>valid_from\<close> descending. Started from the head (\<open>k = 0\<close>), that
  is every row of the lineage.
\<close>

theorem getEntityHistory_returns_predecessors:
  assumes inv: "invariant_I1 (entity_tables s t) lineage"
    and k: "k < length lineage"
    and start: "get_prop (lineage ! k) ''id'' = Str entityId"
  shows "getEntityHistory t entityId s = Some (sort_newest_first (drop k lineage))
     \<and> set (sort_newest_first (drop k lineage)) = set (drop k lineage)
     \<and> distinct (sort_newest_first (drop k lineage))
     \<and> sorted_wrt (\<lambda>a b. getTime (get_prop a ''valid_from'') \<ge> getTime (get_prop b ''valid_from''))
          (sort_newest_first (drop k lineage))"
proof -
  let ?rs = "drop k lineage"
  from inv have pk: "distinct (map (\<lambda>r. get_prop r ''id'') (entity_tables s t))"
    and sub: "set lineage \<subseteq> set (entity_tables s t)"
    and ids: "list_all (\<lambda>r. truthy (get_prop r ''id'')) lineage"
    and ch: "chained lineage"
    and dl: "distinct lineage"
    by (simp_all add: invariant_I1_def)
  from k have ne: "?rs \<noteq> []" by simp
  from k have hd: "hd ?rs = lineage ! k" by (simp add: hd_drop_conv_nth)
  have sub': "set ?rs \<subseteq> set (entity_tables s t)"
    using sub set_drop_subset [of k lineage] by blast
  have ids': "list_all (\<lambda>r. truthy (get_prop r ''id'')) ?rs"
    using ids set_drop_subset [of k lineage] by (auto simp: list_all_iff)
  have "getEntityHistory_loop (entity_tables s t) (get_prop (hd ?rs) ''id'') [] = Some ([] @ ?rs)"
    by (rule getEntityHistory_loop_chain [OF pk ne sub' ids' chained_drop [OF ch]])
  then have "getEntityHistory t entityId s = Some (sort_newest_first ?rs)"
    by (simp add: getEntityHistory_def hd start)
  moreover have "distinct ?rs" using dl by simp
  ultimately show ?thesis
    by (simp add: sort_newest_first_props)
qed

lemma lineage_AB:
  "invariant_I1 (entity_tables (db_with ''staff'' [row_A_retired, row_B]) ''staff'')
     [row_B, row_A_retired]"
  by (simp add: invariant_I1_def db_with_def row_A_retired_def row_B_def get_prop_def
        object_prototype_keys_def)

theorem getEntityHistory_returns_predecessors_witness:
  "invariant_I1 (entity_tables (db_with ''staff'' [row_A_retired, row_B]) ''staff'')
     [row_B, row_A_retired]
   \<and> 0 < length [row_B, row_A_retired]
   \<and> get_prop ([row_B, row_A_retired] ! 0) ''id'' = Str ''B''
   \<and> getEntityHistory ''staff'' ''B'' (db_with ''staff'' [row_A_retired, row_B])
        = Some [row_B, row_A_retired]"
proof -
  have start: "get_prop ([row_B, row_A_retired] ! 0) ''id'' = Str ''B''"
    by (simp add: row_B_def get_prop_def)
  have k: "0 < length [row_B, row_A_retired]" by simp
  have srt: "sort_newest_first [row_B, row_A_retired] = [row_B, row_A_retired]"
    by (simp add: sort_newest_first_def row_A_retired_def row_B_def get_prop_def)
  from getEntityHistory_returns_predecessors [OF lineage_AB k start] lineage_AB start srt
  show ?thesis by simp
qed

text \<open>
  Claim C3 fails on the code: started from a node that is not the head, the walk misses
  the successors. In the lineage B, A of the spec's scenario, which satisfies invariant
  I1, the history of A is A alone; the current version B is not in it.
\<close>

theorem getEntityHistory_misses_successors:
  "invariant_I1 (entity_tables (db_with ''staff'' [row_A_retired, row_B]) ''staff'')
     [row_B, row_A_retired]
   \<and> getEntityHistory ''staff'' ''A'' (db_with ''staff'' [row_A_retired, row_B])
        = Some [row_A_retired]
   \<and> row_B \<notin> set [row_A_retired]"
proof -
  have "getEntityHistory_loop [row_A_retired, row_B] (Str ''A'') [] = Some [row_A_retired]"
    by (subst getEntityHistory_loop.simps, subst getEntityHistory_loop.simps)
       (simp add: findFirst_def row_A_retired_def get_prop_def)
  then have "getEntityHistory ''staff'' ''A'' (db_with ''staff'' [row_A_retired, row_B])
        = Some [row_A_retired]"
    by (simp add: getEntityHistory_def db_with_def sort_newest_first_def)
  moreover have "row_B \<notin> set [row_A_retired]"
    by (simp add: row_A_retired_def row_B_def)
  ultimately show ?thesis using lineage_AB by simp
qed






subsection \<open>getCurrentVersion\<close>

text \<open>
  Claim C7. When no row has the starting id, the result is \<^verbatim>\<open>null\<close>. When the row with
  the id is current, it is returned; when it is not current and no row names the id as
  its predecessor, the row itself is returned although its \<^verbatim>\<open>is_current\<close> is false; and
  when a row names the id as its predecessor, the walk goes on from the id of (the first)
  such row. The id of an existing row is a uuid and so not the empty string, which the
  \<^verbatim>\<open>while\<close> loop would not enter.
\<close>

theorem getCurrentVersion_resolution:
  "(findFirst (\<lambda>r. get_prop r ''id'' = Str originalId) (entity_tables s t) = None \<longrightarrow>
      getCurrentVersion t originalId s = Some None)
   \<and> (\<forall>version. originalId \<noteq> []
          \<and> findFirst (\<lambda>r. get_prop r ''id'' = Str originalId) (entity_tables s t) = Some version
          \<and> truthy (get_prop version ''is_current'') \<longrightarrow>
        getCurrentVersion t originalId s = Some (Some version))
   \<and> (\<forall>version. originalId \<noteq> []
          \<and> findFirst (\<lambda>r. get_prop r ''id'' = Str originalId) (entity_tables s t) = Some version
          \<and> \<not> truthy (get_prop version ''is_current'')
          \<and> findFirst (\<lambda>r. get_prop r ''previous_version_id'' = Str originalId) (entity_tables s t)
              = None \<longrightarrow>
        getCurrentVersion t originalId s = Some (Some version))
   \<and> (\<forall>version newer newerId. originalId \<noteq> []
          \<and> findFirst (\<lambda>r. get_prop r ''id'' = Str originalId) (entity_tables s t) = Some version
          \<and> \<not> truthy (get_prop version ''is_current'')
          \<and> findFirst (\<lambda>r. get_prop r ''previous_version_id'' = Str originalId) (entity_tables s t)
              = Some newer
          \<and> get_prop newer ''id'' = Str newerId \<longrightarrow>
        getCurrentVersion t originalId s = getCurrentVersion t newerId s)"
proof -
  let ?tbl = "entity_tables s t"
  have unfold: "getCurrentVersion t originalId s =
      (if originalId \<noteq> [] then
         (case findFirst (\<lambda>r. get_prop r ''id'' = Str originalId) ?tbl of
            None \<Rightarrow> Some None
          | Some version \<Rightarrow>
              if truthy (get_prop version ''is_current'') then Some (Some version)
              else
                (case findFirst (\<lambda>r. get_prop r ''previous_version_id'' = Str originalId) ?tbl of
                   None \<Rightarrow> Some (Some version)
                 | Some newer \<Rightarrow> getCurrentVersion_loop ?tbl (get_prop newer ''id'')))
       else Some None)"
    unfolding getCurrentVersion_def
    by (subst getCurrentVersion_loop.simps) simp
  show ?thesis
    by (simp add: unfold) (simp add: getCurrentVersion_def)
qed

theorem getCurrentVersion_resolution_witness:
  "''A'' \<noteq> []
   \<and> findFirst (\<lambda>r. get_prop r ''id'' = Str ''A'')
        (entity_tables (db_with ''staff'' [row_A_retired, row_B]) ''staff'') = Some row_A_retired
   \<and> \<not> truthy (get_prop row_A_retired ''is_current'')
   \<and> findFirst (\<lambda>r. get_prop r ''previous_version_id'' = Str ''A'')
        (entity_tables (db_with ''staff'' [row_A_retired, row_B]) ''staff'') = Some row_B
   \<and> get_prop row_B ''id'' = Str ''B''
   \<and> getCurrentVersion ''staff'' ''A'' (db_with ''staff'' [row_A_retired, row_B])
       = getCurrentVersion ''staff'' ''B'' (db_with ''staff'' [row_A_retired, row_B])
   \<and> findFirst (\<lambda>r. get_prop r ''id'' = Str ''B'')
        (entity_tables (db_with ''staff'' [row_A_retired, row_B]) ''staff'') = Some row_B
   \<and> truthy (get_prop row_B ''is_current'')
   \<and> getCurrentVersion ''staff'' ''B'' (db_with ''staff'' [row_A_retired, row_B]) = Some (Some row_B)
   \<and> findFirst (\<lambda>r. get_prop r ''id'' = Str ''Z'')
        (entity_tables (db_with ''staff'' [row_A_retired, row_B]) ''staff'') = None
   \<and> getCurrentVersion ''staff'' ''Z'' (db_with ''staff'' [row_A_retired, row_B]) = Some None
   \<and> findFirst (\<lambda>r. get_prop r ''previous_version_id'' = Str ''A'')
        (entity_tables (db_with ''staff'' [row_A_retired]) ''staff'') = None
   \<and> getCurrentVersion ''staff'' ''A'' (db_with ''staff'' [row_A_retired]) = Some (Some row_A_retired)"
proof -
  let ?s = "db_with ''staff'' [row_A_retired, row_B]"
  let ?s1 = "db_with ''staff'' [row_A_retired]"
  have a: "findFirst (\<lambda>r. get_prop r ''id'' = Str ''A'') (entity_tables ?s ''staff'') = Some row_A_retired"
    by (simp add: findFirst_def db_with_def row_A_retired_def get_prop_def)
  have na: "\<not> truthy (get_prop row_A_retired ''is_current'')"
    by (simp add: row_A_retired_def get_prop_def)
  have nb: "findFirst (\<lambda>r. get_prop r ''previous_version_id'' = Str ''A'') (entity_tables ?s ''staff'') = Some row_B"
    by (simp add: findFirst_def db_with_def row_A_retired_def row_B_def get_prop_def)
  have ib: "get_prop row_B ''id'' = Str ''B''"
    by (simp add: row_B_def get_prop_def)
  have b: "findFirst (\<lambda>r. get_prop r ''id'' = Str ''B'') (entity_tables ?s ''staff'') = Some row_B"
    by (simp add: findFirst_def db_with_def row_A_retired_def row_B_def get_prop_def)
  have cb: "truthy (get_prop row_B ''is_current'')"
    by (simp add: row_B_def get_prop_def)
  have z: "findFirst (\<lambda>r. get_prop r ''id'' = Str ''Z'') (entity_tables ?s ''staff'') = None"
    by (simp add: findFirst_def db_with_def row_A_retired_def row_B_def get_prop_def)
  have a1: "findFirst (\<lambda>r. get_prop r ''id'' = Str ''A'') (entity_tables ?s1 ''staff'') = Some row_A_retired"
    by (simp add: findFirst_def db_with_def row_A_retired_def get_prop_def)
  have n1: "findFirst (\<lambda>r. get_prop r ''previous_version_id'' = Str ''A'') (entity_tables ?s1 ''staff'') = None"
    by (simp add: findFirst_def db_with_def row_A_retired_def get_prop_def)
  have r1: "getCurrentVersion ''staff'' ''A'' ?s = getCurrentVersion ''staff'' ''B'' ?s"
    using getCurrentVersion_resolution [of "''A''" ?s "''staff''"] a na nb ib by simp
  have r2: "getCurrentVersion ''staff'' ''B'' ?s = Some (Some row_B)"
    using getCurrentVersion_resolution [of "''B''" ?s "''staff''"] b cb by simp
  have r3: "getCurrentVersion ''staff'' ''Z'' ?s = Some None"
    using getCurrentVersion_resolution [of "''Z''" ?s "''staff''"] z by simp
  have r4: "getCurrentVersion ''staff'' ''A'' ?s1 = Some (Some row_A_retired)"
    using getCurrentVersion_resolution [of "''A''" ?s1 "''staff''"] a1 na n1 by simp
  from a na nb ib b cb z n1 r1 r2 r3 r4 show ?thesis by simp
qed

text \<open>
  Beyond the four cases: under invariant I1 the walk started from any node of a lineage
  returns and answers the head of the lineage, the current version.
\<close>

lemma chained_nth:
  "chained rs \<Longrightarrow> Suc i < length rs \<Longrightarrow>
   get_prop (rs ! i) ''previous_version_id'' = get_prop (rs ! Suc i) ''id''"
proof (induction rs arbitrary: i rule: chained.induct)
  case 1
  then show ?case by simp
next
  case (2 r)
  then show ?case by simp
next
  case (3 r r' rs)
  then show ?case by (cases i) simp_all
qed

lemma findFirst_by_reference:
  assumes "distinct (filter truthy (map g rows))" and "r \<in> set rows" and "truthy (g r)"
  shows "findFirst (\<lambda>x. g x = g r) rows = Some r"
  using assms
proof (induction rows)
  case Nil
  then show ?case by simp
next
  case (Cons a rows)
  show ?case
  proof (cases "a = r")
    case True
    then show ?thesis by (simp add: findFirst_def)
  next
    case False
    with Cons.prems have mem: "r \<in> set rows" by simp
    have ne: "g a \<noteq> g r"
    proof
      assume eq: "g a = g r"
      with Cons.prems(3) have "truthy (g a)" by simp
      with Cons.prems(1) have "g a \<notin> set (filter truthy (map g rows))" by simp
      moreover from mem Cons.prems(3) have "g r \<in> set (filter truthy (map g rows))" by auto
      ultimately show False using eq by simp
    qed
    from Cons.prems(1) have "distinct (filter truthy (map g rows))"
      by (simp split: if_splits)
    from Cons.IH [OF this mem Cons.prems(3)] ne show ?thesis
      by (simp add: findFirst_def)
  qed
qed

lemma getCurrentVersion_loop_head:
  assumes inv: "invariant_I1 tbl lineage"
  shows "k < length lineage \<Longrightarrow>
    getCurrentVersion_loop tbl (get_prop (lineage ! k) ''id'') = Some (Some (hd lineage))"
proof (induction k)
  case 0
  from inv have ne: "lineage \<noteq> []" and sub: "set lineage \<subseteq> set tbl"
    and pk: "distinct (map (\<lambda>r. get_prop r ''id'') tbl)"
    and ids: "list_all (\<lambda>r. truthy (get_prop r ''id'')) lineage"
    and cur: "get_prop (hd lineage) ''is_current'' = Bool True"
    by (simp_all add: invariant_I1_def)
  from ne have h: "lineage ! 0 = hd lineage" by (simp add: hd_conv_nth)
  from ne sub have mem: "hd lineage \<in> set tbl" by auto
  from ne ids have tr: "truthy (get_prop (hd lineage) ''id'')" by (cases lineage) simp_all
  have f: "findFirst (\<lambda>x. get_prop x ''id'' = get_prop (hd lineage) ''id'') tbl = Some (hd lineage)"
    by (rule findFirst_by_key [OF pk mem])
  show ?case
    unfolding h by (subst getCurrentVersion_loop.simps) (simp add: tr f cur)
next
  case (Suc k)
  from inv have sub: "set lineage \<subseteq> set tbl"
    and pk: "distinct (map (\<lambda>r. get_prop r ''id'') tbl)"
    and refs: "distinct (filter truthy (map (\<lambda>r. get_prop r ''previous_version_id'') tbl))"
    and ids: "list_all (\<lambda>r. truthy (get_prop r ''id'')) lineage"
    and ch: "chained lineage"
    and old: "list_all (\<lambda>r. get_prop r ''is_current'' = Bool False) (tl lineage)"
    by (simp_all add: invariant_I1_def)
  let ?r = "lineage ! Suc k" and ?n = "lineage ! k"
  from Suc.prems have k: "k < length lineage" by simp
  from Suc.prems sub have mem: "?r \<in> set tbl" by (meson nth_mem subsetD)
  from k sub have memn: "?n \<in> set tbl" by (meson nth_mem subsetD)
  from Suc.prems ids have tr: "truthy (get_prop ?r ''id'')"
    by (simp add: list_all_length)
  from Suc.prems have "?r = tl lineage ! k" by (simp add: nth_tl)
  with Suc.prems old have nc: "get_prop ?r ''is_current'' = Bool False"
    by (simp add: list_all_length)
  have link: "get_prop ?n ''previous_version_id'' = get_prop ?r ''id''"
    by (rule chained_nth [OF ch Suc.prems])
  have f: "findFirst (\<lambda>x. get_prop x ''id'' = get_prop ?r ''id'') tbl = Some ?r"
    by (rule findFirst_by_key [OF pk mem])
  have "findFirst (\<lambda>x. get_prop x ''previous_version_id'' = get_prop ?n ''previous_version_id'') tbl
      = Some ?n"
    by (rule findFirst_by_reference [OF refs memn]) (simp add: link tr)
  then have g: "findFirst (\<lambda>x. get_prop x ''previous_version_id'' = get_prop ?r ''id'') tbl = Some ?n"
    by (simp add: link)
  show ?case
    by (subst getCurrentVersion_loop.simps) (simp add: tr f nc g Suc.IH [OF k])
qed

lemma getCurrentVersion_resolves_head:
  assumes "invariant_I1 (entity_tables s t) lineage"
    and "k < length lineage"
    and "get_prop (lineage ! k) ''id'' = Str originalId"
  shows "getCurrentVersion t originalId s = Some (Some (hd lineage))"
  using getCurrentVersion_loop_head [OF assms(1,2)] assms(3)
  by (simp add: getCurrentVersion_def)

subsection \<open>updateAssignmentStatus\<close>

lemma findFirst_update_where:
  assumes "\<And>r. p r \<Longrightarrow> p (f r)"
  shows "findFirst p (update_where p f rows) = map_option f (findFirst p rows)"
  using assms by (induction rows) (auto simp: findFirst_def update_where_def)

lemma sa_id_set_status [simp]: "sa_id (set_status e ns msg a) = sa_id a"
  by (simp add: set_status_def)

lemma sa_response_status_set_status [simp]: "sa_response_status (set_status e ns msg a) = ns"
  by (simp add: set_status_def)

lemma updateAssignmentStatus_changed:
  assumes cur: "findFirst (\<lambda>a. sa_id a = aid) (shift_assignments s) = Some cur"
    and change: "sa_response_status cur \<noteq> ns"
  shows "updateAssignmentStatus e aid ns msg cb cbs md ip ua s =
     (if rejects e 0 \<or> rejects e 1 \<or> rejects e 2
      then (Inl StoreFailure, s\<lparr>tx_opened := Suc (tx_opened s)\<rparr>)
      else (Inr (Some (set_status e ns msg cur)),
            s\<lparr>tx_opened := Suc (tx_opened s),
              shift_assignments :=
                update_where (\<lambda>a. sa_id a = aid) (set_status e ns msg) (shift_assignments s),
              shift_assignment_logs := shift_assignment_logs s @
                 [\<lparr>sl_id = log_uuid e,
                  sl_assignment_id = aid,
                  sl_previous_status = Some (sa_response_status cur),
                  sl_new_status = ns,
                  sl_changed_by = cb,
                  sl_changed_by_staff = cbs,
                  sl_message = msg,
                  sl_metadata = md,
                  sl_created_at = db_now e\<rparr>],
              audit_logs := audit_logs s @
                 [\<lparr>al_id = audit_uuid e,
                  al_organization_id = Null,
                  al_entity_type = Str ''shift_assignment'',
                  al_entity_id = Str aid,
                  al_action = status_change,
                  al_performed_by = cb,
                  al_performed_by_staff = cbs,
                  al_old_values = Some [(''response_status'', Str (status_name (sa_response_status cur)))],
                  al_new_values = Some [(''response_status'', Str (status_name ns))],
                  al_changed_fields = Some [''response_status''],
                  al_ip_address = ip,
                  al_user_agent = ua,
                  al_metadata = md,
                  al_created_at = db_now e\<rparr>]\<rparr>))"
proof -
  have ff: "findFirst (\<lambda>a. sa_id a = aid)
         (update_where (\<lambda>a. sa_id a = aid) (set_status e ns msg) (shift_assignments s))
       = Some (set_status e ns msg cur)"
    by (subst findFirst_update_where) (simp_all add: cur)
  show ?thesis
    using cur change
    by (simp add: updateAssignmentStatus_def transaction_def updateAssignmentStatus_tx_def
          Let_def insert_row_def ff)
qed

lemma updateAssignmentStatus_error_keeps_tables:
  assumes "fst (updateAssignmentStatus e aid ns msg cb cbs md ip ua s) = Inl x"
  shows "shift_assignments (snd (updateAssignmentStatus e aid ns msg cb cbs md ip ua s)) = shift_assignments s
     \<and> shift_assignment_logs (snd (updateAssignmentStatus e aid ns msg cb cbs md ip ua s)) = shift_assignment_logs s
     \<and> audit_logs (snd (updateAssignmentStatus e aid ns msg cb cbs md ip ua s)) = audit_logs s
     \<and> entity_tables (snd (updateAssignmentStatus e aid ns msg cb cbs md ip ua s)) = entity_tables s"
proof (cases "findFirst (\<lambda>a. sa_id a = aid) (shift_assignments s)")
  case None
  then show ?thesis by (simp add: updateAssignmentStatus_def)
next
  case (Some cur)
  show ?thesis
  proof (cases "sa_response_status cur = ns")
    case True
    with Some show ?thesis by (simp add: updateAssignmentStatus_def)
  next
    case False
    from updateAssignmentStatus_changed [OF Some False, of e msg cb cbs md ip ua] assms
    show ?thesis by (simp split: if_splits)
  qed
qed

text \<open>
  Claim C4. A successful call of \<^verbatim>\<open>updateAssignmentStatus\<close> that changes the status (the
  assignment exists and its status differs from the new one) appends exactly one row to
  the assignment-status log (assignment id, previous status, new status, actor, message)
  and exactly one row to the audit log (action \<^verbatim>\<open>status_change\<close>, entity the assignment,
  the same actor, old snapshot \<^verbatim>\<open>{response_status: previous}\<close>, new snapshot
  \<^verbatim>\<open>{response_status: new}\<close>, changed fields \<^verbatim>\<open>["response_status"]\<close>), sets the status of
  the rows with the assignment id and leaves the other rows alone, returns the updated
  row, and does all of it in one transaction: whenever a call with these arguments
  fails, whatever write the store rejects, none of the three tables has changed.
\<close>

theorem updateAssignmentStatus_dual_log:
  assumes cur: "findFirst (\<lambda>a. sa_id a = aid) (shift_assignments s) = Some cur"
    and change: "sa_response_status cur \<noteq> ns"
    and ok: "updateAssignmentStatus e aid ns msg cb cbs md ip ua s = (Inr res, s')"
  shows
    "shift_assignment_logs s' = shift_assignment_logs s @ [last (shift_assignment_logs s')]
     \<and> sl_assignment_id (last (shift_assignment_logs s')) = aid
     \<and> sl_previous_status (last (shift_assignment_logs s')) = Some (sa_response_status cur)
     \<and> sl_new_status (last (shift_assignment_logs s')) = ns
     \<and> sl_changed_by (last (shift_assignment_logs s')) = cb
     \<and> sl_changed_by_staff (last (shift_assignment_logs s')) = cbs
     \<and> sl_message (last (shift_assignment_logs s')) = msg
     \<and> audit_logs s' = audit_logs s @ [last (audit_logs s')]
     \<and> al_action (last (audit_logs s')) = status_change
     \<and> al_entity_type (last (audit_logs s')) = Str ''shift_assignment''
     \<and> al_entity_id (last (audit_logs s')) = Str aid
     \<and> al_performed_by (last (audit_logs s')) = cb
     \<and> al_performed_by_staff (last (audit_logs s')) = cbs
     \<and> al_old_values (last (audit_logs s'))
         = Some [(''response_status'', Str (status_name (sa_response_status cur)))]
     \<and> al_new_values (last (audit_logs s')) = Some [(''response_status'', Str (status_name ns))]
     \<and> al_changed_fields (last (audit_logs s')) = Some [''response_status'']
     \<and> length (shift_assignments s') = length (shift_assignments s)
     \<and> (\<forall>i < length (shift_assignments s).
          (sa_id (shift_assignments s ! i) = aid \<longrightarrow>
             sa_id (shift_assignments s' ! i) = aid
             \<and> sa_response_status (shift_assignments s' ! i) = ns)
          \<and> (sa_id (shift_assignments s ! i) \<noteq> aid \<longrightarrow>
               shift_assignments s' ! i = shift_assignments s ! i))
     \<and> res = Some (set_status e ns msg cur)
     \<and> tx_opened s' = Suc (tx_opened s)
     \<and> (\<forall>e' x. fst (updateAssignmentStatus e' aid ns msg cb cbs md ip ua s) = Inl x \<longrightarrow>
           shift_assignments (snd (updateAssignmentStatus e' aid ns msg cb cbs md ip ua s))
             = shift_assignments s
           \<and> shift_assignment_logs (snd (updateAssignmentStatus e' aid ns msg cb cbs md ip ua s))
             = shift_assignment_logs s
           \<and> audit_logs (snd (updateAssignmentStatus e' aid ns msg cb cbs md ip ua s))
             = audit_logs s)"
proof -
  note C = updateAssignmentStatus_changed [OF cur change, of e msg cb cbs md ip ua]
  from C ok have norej: "\<not> (rejects e 0 \<or> rejects e 1 \<or> rejects e 2)"
    by (auto split: if_splits)
  from C ok norej have res: "res = Some (set_status e ns msg cur)"
    by simp
  from C ok norej have asg: "shift_assignments s' =
      update_where (\<lambda>a. sa_id a = aid) (set_status e ns msg) (shift_assignments s)"
    by auto
  from C ok norej have logs: "shift_assignment_logs s' = shift_assignment_logs s @
                 [\<lparr>sl_id = log_uuid e,
                  sl_assignment_id = aid,
                  sl_previous_status = Some (sa_response_status cur),
                  sl_new_status = ns,
                  sl_changed_by = cb,
                  sl_changed_by_staff = cbs,
                  sl_message = msg,
                  sl_metadata = md,
                  sl_created_at = db_now e\<rparr>]"
    by auto
  from C ok norej have audit: "audit_logs s' = audit_logs s @
                 [\<lparr>al_id = audit_uuid e,
                  al_organization_id = Null,
                  al_entity_type = Str ''shift_assignment'',
                  al_entity_id = Str aid,
                  al_action = status_change,
                  al_performed_by = cb,
                  al_performed_by_staff = cbs,
                  al_old_values = Some [(''response_status'', Str (status_name (sa_response_status cur)))],
                  al_new_values = Some [(''response_status'', Str (status_name ns))],
                  al_changed_fields = Some [''response_status''],
                  al_ip_address = ip,
                  al_user_agent = ua,
                  al_metadata = md,
                  al_created_at = db_now e\<rparr>]"
    by auto
  from C ok norej have tx: "tx_opened s' = Suc (tx_opened s)"
    by auto
  have c1: "shift_assignment_logs s' = shift_assignment_logs s @ [last (shift_assignment_logs s')]
     \<and> sl_assignment_id (last (shift_assignment_logs s')) = aid
     \<and> sl_previous_status (last (shift_assignment_logs s')) = Some (sa_response_status cur)
     \<and> sl_new_status (last (shift_assignment_logs s')) = ns
     \<and> sl_changed_by (last (shift_assignment_logs s')) = cb
     \<and> sl_changed_by_staff (last (shift_assignment_logs s')) = cbs
     \<and> sl_message (last (shift_assignment_logs s')) = msg"
    by (simp add: logs)
  have c2: "audit_logs s' = audit_logs s @ [last (audit_logs s')]
     \<and> al_action (last (audit_logs s')) = status_change
     \<and> al_entity_type (last (audit_logs s')) = Str ''shift_assignment''
     \<and> al_entity_id (last (audit_logs s')) = Str aid
     \<and> al_performed_by (last (audit_logs s')) = cb
     \<and> al_performed_by_staff (last (audit_logs s')) = cbs
     \<and> al_old_values (last (audit_logs s'))
         = Some [(''response_status'', Str (status_name (sa_response_status cur)))]
     \<and> al_new_values (last (audit_logs s')) = Some [(''response_status'', Str (status_name ns))]
     \<and> al_changed_fields (last (audit_logs s')) = Some [''response_status'']"
    by (simp add: audit)
  have c3: "length (shift_assignments s') = length (shift_assignments s)
     \<and> (\<forall>i < length (shift_assignments s).
          (sa_id (shift_assignments s ! i) = aid \<longrightarrow>
             sa_id (shift_assignments s' ! i) = aid
             \<and> sa_response_status (shift_assignments s' ! i) = ns)
          \<and> (sa_id (shift_assignments s ! i) \<noteq> aid \<longrightarrow>
               shift_assignments s' ! i = shift_assignments s ! i))"
    by (simp add: asg update_where_def)
  have c4: "\<forall>e' x. fst (updateAssignmentStatus e' aid ns msg cb cbs md ip ua s) = Inl x \<longrightarrow>
           shift_assignments (snd (updateAssignmentStatus e' aid ns msg cb cbs md ip ua s))
             = shift_assignments s
           \<and> shift_assignment_logs (snd (updateAssignmentStatus e' aid ns msg cb cbs md ip ua s))
             = shift_assignment_logs s
           \<and> audit_logs (snd (updateAssignmentStatus e' aid ns msg cb cbs md ip ua s))
             = audit_logs s"
    using updateAssignmentStatus_error_keeps_tables by blast
  from c1 c2 c3 res tx c4 show ?thesis
    by blast
qed

theorem updateAssignmentStatus_dual_log_witness:
  "findFirst (\<lambda>a. sa_id a = ''as1'') (shift_assignments (db_assignments [assignment_1]))
     = Some assignment_1
   \<and> sa_response_status assignment_1 \<noteq> accepted
   \<and> fst (updateAssignmentStatus env_accept ''as1'' accepted (Some ''Available!'') None (Some ''B'')
        None None None (db_assignments [assignment_1]))
      = Inr (Some (assignment_1\<lparr>sa_response_status := accepted,
                sa_response_message := Some ''Available!'',
                sa_responded_at := Some 300, sa_updated_at := 301\<rparr>))
   \<and> length (shift_assignment_logs (snd (updateAssignmentStatus env_accept ''as1'' accepted
        (Some ''Available!'') None (Some ''B'') None None None (db_assignments [assignment_1])))) = 1
   \<and> length (audit_logs (snd (updateAssignmentStatus env_accept ''as1'' accepted
        (Some ''Available!'') None (Some ''B'') None None None (db_assignments [assignment_1])))) = 1
   \<and> al_changed_fields (last (audit_logs (snd (updateAssignmentStatus env_accept ''as1'' accepted
        (Some ''Available!'') None (Some ''B'') None None None (db_assignments [assignment_1])))))
      = Some [''response_status'']
   \<and> sl_previous_status (last (shift_assignment_logs (snd (updateAssignmentStatus env_accept ''as1''
        accepted (Some ''Available!'') None (Some ''B'') None None None
        (db_assignments [assignment_1]))))) = Some pending"
proof -
  let ?s = "db_assignments [assignment_1]"
  let ?call = "updateAssignmentStatus env_accept ''as1'' accepted (Some ''Available!'') None
                 (Some ''B'') None None None ?s"
  have cur: "findFirst (\<lambda>a. sa_id a = ''as1'') (shift_assignments ?s) = Some assignment_1"
    by (simp add: findFirst_def db_assignments_def assignment_1_def)
  have change: "sa_response_status assignment_1 \<noteq> accepted"
    by (simp add: assignment_1_def)
  have res: "fst ?call = Inr (Some (assignment_1\<lparr>sa_response_status := accepted,
                sa_response_message := Some ''Available!'',
                sa_responded_at := Some 300, sa_updated_at := 301\<rparr>))"
    by (simp add: updateAssignmentStatus_def transaction_def updateAssignmentStatus_tx_def
          findFirst_def update_where_def set_status_def insert_row_def rejects_def Let_def
          db_assignments_def assignment_1_def env_accept_def)
  then have ok: "?call = (Inr (Some (assignment_1\<lparr>sa_response_status := accepted,
                sa_response_message := Some ''Available!'',
                sa_responded_at := Some 300, sa_updated_at := 301\<rparr>)), snd ?call)"
    by (metis prod.collapse)
  have l0: "shift_assignment_logs ?s = []" "audit_logs ?s = []"
    by (simp_all add: db_assignments_def)
  note T = updateAssignmentStatus_dual_log [OF cur change ok]
  from T l0 have n1: "length (shift_assignment_logs (snd ?call)) = 1"
    by (metis append_Nil length_Cons list.size(3) One_nat_def)
  from T l0 have n2: "length (audit_logs (snd ?call)) = 1"
    by (metis append_Nil length_Cons list.size(3) One_nat_def)
  from T have f: "al_changed_fields (last (audit_logs (snd ?call))) = Some [''response_status'']"
    by blast
  from T have p: "sl_previous_status (last (shift_assignment_logs (snd ?call))) = Some pending"
    by (simp add: assignment_1_def)
  from cur change res n1 n2 f p show ?thesis by simp
qed

text \<open>
  Claim C5. For an existing assignment, \<^verbatim>\<open>updateAssignmentStatus\<close> with the status the
  assignment already has returns the row as it is and leaves the state as it is: no
  transaction is opened, no row is written, neither log gets a row. Repeating the call
  with the same status gives the same result and state again.
\<close>

theorem updateAssignmentStatus_noop:
  assumes cur: "findFirst (\<lambda>a. sa_id a = aid) (shift_assignments s) = Some cur"
    and same: "sa_response_status cur = ns"
  shows
    "updateAssignmentStatus e aid ns msg cb cbs md ip ua s = (Inr (Some cur), s)
     \<and> tx_opened (snd (updateAssignmentStatus e aid ns msg cb cbs md ip ua s)) = tx_opened s
     \<and> shift_assignments (snd (updateAssignmentStatus e aid ns msg cb cbs md ip ua s))
         = shift_assignments s
     \<and> shift_assignment_logs (snd (updateAssignmentStatus e aid ns msg cb cbs md ip ua s))
         = shift_assignment_logs s
     \<and> audit_logs (snd (updateAssignmentStatus e aid ns msg cb cbs md ip ua s)) = audit_logs s
     \<and> updateAssignmentStatus e2 aid ns msg2 cb2 cbs2 md2 ip2 ua2
           (snd (updateAssignmentStatus e aid ns msg cb cbs md ip ua s))
         = updateAssignmentStatus e aid ns msg cb cbs md ip ua s"
proof -
  have call: "updateAssignmentStatus e' aid ns m b bs d i u s = (Inr (Some cur), s)"
    for e' m b bs d i u
    using cur same by (simp add: updateAssignmentStatus_def)
  show ?thesis
    by (simp add: call)
qed

theorem updateAssignmentStatus_noop_witness:
  "findFirst (\<lambda>a. sa_id a = ''as1'') (shift_assignments (db_assignments [assignment_1]))
     = Some assignment_1
   \<and> sa_response_status assignment_1 = pending
   \<and> updateAssignmentStatus env_accept ''as1'' pending (Some ''again'') (Some ''u1'') None
        None None None (db_assignments [assignment_1])
      = (Inr (Some assignment_1), db_assignments [assignment_1])"
proof -
  have cur: "findFirst (\<lambda>a. sa_id a = ''as1'') (shift_assignments (db_assignments [assignment_1]))
     = Some assignment_1"
    by (simp add: findFirst_def db_assignments_def assignment_1_def)
  have same: "sa_response_status assignment_1 = pending"
    by (simp add: assignment_1_def)
  from updateAssignmentStatus_noop [OF cur same] cur same show ?thesis
    by simp
qed

text \<open>
  Beyond the no-op: after any successful call, also one that changed the status, a
  further call with the same status changes nothing and returns the same row.
\<close>

lemma updateAssignmentStatus_repeat:
  assumes first: "updateAssignmentStatus e aid ns msg cb cbs md ip ua s = (Inr r, s')"
  shows "updateAssignmentStatus e2 aid ns msg2 cb2 cbs2 md2 ip2 ua2 s' = (Inr r, s')"
proof (cases "findFirst (\<lambda>a. sa_id a = aid) (shift_assignments s)")
  case None
  with first show ?thesis by (simp add: updateAssignmentStatus_def)
next
  case (Some cur)
  show ?thesis
  proof (cases "sa_response_status cur = ns")
    case True
    with Some first have "r = Some cur" "s' = s"
      by (simp_all add: updateAssignmentStatus_def)
    with Some True show ?thesis by (simp add: updateAssignmentStatus_def)
  next
    case False
    note C = updateAssignmentStatus_changed [OF Some False, of e msg cb cbs md ip ua]
    from C first have norej: "\<not> (rejects e 0 \<or> rejects e 1 \<or> rejects e 2)"
      by (auto split: if_splits)
    from C first norej have r: "r = Some (set_status e ns msg cur)"
      by simp
    from C first norej have asg: "shift_assignments s' =
        update_where (\<lambda>a. sa_id a = aid) (set_status e ns msg) (shift_assignments s)"
      by auto
    have ff: "findFirst (\<lambda>a. sa_id a = aid) (shift_assignments s') = Some (set_status e ns msg cur)"
      unfolding asg by (subst findFirst_update_where) (simp_all add: Some)
    show ?thesis
      by (simp add: updateAssignmentStatus_def ff r)
  qed
qed

subsection \<open>getOrganizationAuditLogs\<close>

text \<open>
  What the query does guarantee: every entry returned is an entry of the organization
  that matches the entity type and the action when they are given, the entries are
  sorted newest first, and there are at most \<open>limit\<close> of them (100 by default). The
  result does not depend on \<^verbatim>\<open>startDate\<close> and \<^verbatim>\<open>endDate\<close>.
\<close>

lemma getOrganizationAuditLogs_date_range_unused:
  "getOrganizationAuditLogs org startDate endDate entityType action limit s
     = getOrganizationAuditLogs org None None entityType action limit s"
  by (simp add: getOrganizationAuditLogs_def)

lemma getOrganizationAuditLogs_filters:
  "set (getOrganizationAuditLogs org startDate endDate entityType action limit s)
      \<subseteq> {l \<in> set (audit_logs s).
            al_organization_id l = Str org
            \<and> (case entityType of None \<Rightarrow> True | Some t \<Rightarrow> t = [] \<or> al_entity_type l = Str t)
            \<and> (case action of None \<Rightarrow> True | Some a \<Rightarrow> al_action l = a)}"
  "sorted_wrt (\<lambda>a b. al_created_at a \<ge> al_created_at b)
     (getOrganizationAuditLogs org startDate endDate entityType action limit s)"
  "length (getOrganizationAuditLogs org startDate endDate entityType action limit s)
     \<le> (case limit of None \<Rightarrow> 100 | Some n \<Rightarrow> n)"
proof -
  show "set (getOrganizationAuditLogs org startDate endDate entityType action limit s)
      \<subseteq> {l \<in> set (audit_logs s).
            al_organization_id l = Str org
            \<and> (case entityType of None \<Rightarrow> True | Some t \<Rightarrow> t = [] \<or> al_entity_type l = Str t)
            \<and> (case action of None \<Rightarrow> True | Some a \<Rightarrow> al_action l = a)}"
    by (auto simp: getOrganizationAuditLogs_def Let_def dest!: in_set_takeD
          split: option.splits if_splits)
  have "sorted (map (\<lambda>l. - al_created_at l)
      (getOrganizationAuditLogs org startDate endDate entityType action limit s))"
    unfolding getOrganizationAuditLogs_def Let_def take_map [symmetric]
    by (rule sorted_wrt_take) (rule sorted_sort_key)
  then show "sorted_wrt (\<lambda>a b. al_created_at a \<ge> al_created_at b)
     (getOrganizationAuditLogs org startDate endDate entityType action limit s)"
    by (simp add: sorted_map)
  show "length (getOrganizationAuditLogs org startDate endDate entityType action limit s)
     \<le> (case limit of None \<Rightarrow> 100 | Some n \<Rightarrow> n)"
    by (simp add: getOrganizationAuditLogs_def Let_def)
qed

text \<open>
  Claim C8 fails on the code: the date range is not applied. With the range 1000 to
  2000 supplied, the entry created at time 5 is returned.
\<close>

theorem getOrganizationAuditLogs_ignores_date_range:
  "al_created_at audit_old < 1000
   \<and> getOrganizationAuditLogs ''org1'' (Some 1000) (Some 2000) None None None (db_audit [audit_old])
       = [audit_old]"
  by (simp add: getOrganizationAuditLogs_def db_audit_def audit_old_def)

subsection \<open>formatAssignmentHistory\<close>

text \<open>
  Claim C9 (as amended). \<^verbatim>\<open>formatAssignmentHistory\<close> returns one line per entry, in
  order. The line is \<^verbatim>\<open>[timestamp] actor: transition\<close>, followed by the suffix
  \<^verbatim>\<open> - "message"\<close> exactly when the entry has a non-empty message. The actor is
  \<^verbatim>\<open>Manager\<close> and the name of the resolved user; else \<^verbatim>\<open>Staff\<close> and the name of the
  resolved staff member; else \<^verbatim>\<open>System\<close>. The transition is \<^verbatim>\<open>previous \<rightarrow> new\<close> when the
  previous status is not null, and \<^verbatim>\<open>Status gesetzt: new\<close> when it is null.
\<close>

theorem formatAssignmentHistory_lines:
  "length (formatAssignmentHistory toLocaleString logs) = length logs
   \<and> (\<forall>i < length logs. \<exists>actor transition suffix.
         formatAssignmentHistory toLocaleString logs ! i
           = ''['' @ toLocaleString (sl_created_at (logs ! i)) @ ''] '' @ actor @ '': ''
               @ transition @ suffix
         \<and> (\<forall>u. changedByUser (logs ! i) = Some u \<longrightarrow> actor = ''Manager '' @ ur_name u)
         \<and> (\<forall>m. changedByUser (logs ! i) = None \<and> changedByStaffMember (logs ! i) = Some m \<longrightarrow>
                actor = ''Staff '' @ ur_name m)
         \<and> (changedByUser (logs ! i) = None \<and> changedByStaffMember (logs ! i) = None \<longrightarrow>
                actor = ''System'')
         \<and> (\<forall>p. sl_previous_status (logs ! i) = Some p \<longrightarrow>
                transition = status_name p @ '' '' @ arrow @ '' '' @ status_name (sl_new_status (logs ! i)))
         \<and> (sl_previous_status (logs ! i) = None \<longrightarrow>
                transition = ''Status gesetzt: '' @ status_name (sl_new_status (logs ! i)))
         \<and> (\<forall>m. sl_message (logs ! i) = Some m \<and> m \<noteq> [] \<longrightarrow>
                suffix = '' - '' @ dquote @ m @ dquote)
         \<and> (sl_message (logs ! i) = None \<or> sl_message (logs ! i) = Some [] \<longrightarrow> suffix = []))"
proof -
  have line: "\<exists>actor transition suffix.
         format_line toLocaleString log
           = ''['' @ toLocaleString (sl_created_at log) @ ''] '' @ actor @ '': ''
               @ transition @ suffix
         \<and> (\<forall>u. changedByUser log = Some u \<longrightarrow> actor = ''Manager '' @ ur_name u)
         \<and> (\<forall>m. changedByUser log = None \<and> changedByStaffMember log = Some m \<longrightarrow>
                actor = ''Staff '' @ ur_name m)
         \<and> (changedByUser log = None \<and> changedByStaffMember log = None \<longrightarrow>
                actor = ''System'')
         \<and> (\<forall>p. sl_previous_status log = Some p \<longrightarrow>
                transition = status_name p @ '' '' @ arrow @ '' '' @ status_name (sl_new_status log))
         \<and> (sl_previous_status log = None \<longrightarrow>
                transition = ''Status gesetzt: '' @ status_name (sl_new_status log))
         \<and> (\<forall>m. sl_message log = Some m \<and> m \<noteq> [] \<longrightarrow>
                suffix = '' - '' @ dquote @ m @ dquote)
         \<and> (sl_message log = None \<or> sl_message log = Some [] \<longrightarrow> suffix = [])" for log
  proof -
    define actor where "actor =
      (case changedByUser log of
         Some u \<Rightarrow> ''Manager '' @ ur_name u
       | None \<Rightarrow>
           (case changedByStaffMember log of
              Some m \<Rightarrow> ''Staff '' @ ur_name m
            | None \<Rightarrow> ''System''))"
    define transition where "transition =
      (case sl_previous_status log of
         Some p \<Rightarrow> status_name p @ '' '' @ arrow @ '' '' @ status_name (sl_new_status log)
       | None \<Rightarrow> ''Status gesetzt: '' @ status_name (sl_new_status log))"
    define suffix where "suffix =
      (if truthy_str (sl_message log)
       then '' - '' @ dquote @ (case sl_message log of Some m \<Rightarrow> m | None \<Rightarrow> []) @ dquote
       else [])"
    have eq: "format_line toLocaleString log
           = ''['' @ toLocaleString (sl_created_at log) @ ''] '' @ actor @ '': ''
               @ transition @ suffix"
      by (simp add: format_line_def Let_def actor_def transition_def suffix_def)
    have a: "(\<forall>u. changedByUser log = Some u \<longrightarrow> actor = ''Manager '' @ ur_name u)
         \<and> (\<forall>m. changedByUser log = None \<and> changedByStaffMember log = Some m \<longrightarrow>
                actor = ''Staff '' @ ur_name m)
         \<and> (changedByUser log = None \<and> changedByStaffMember log = None \<longrightarrow>
                actor = ''System'')"
      by (simp add: actor_def)
    have t: "(\<forall>p. sl_previous_status log = Some p \<longrightarrow>
                transition = status_name p @ '' '' @ arrow @ '' '' @ status_name (sl_new_status log))
         \<and> (sl_previous_status log = None \<longrightarrow>
                transition = ''Status gesetzt: '' @ status_name (sl_new_status log))"
      by (simp add: transition_def)
    have x: "(\<forall>m. sl_message log = Some m \<and> m \<noteq> [] \<longrightarrow>
                suffix = '' - '' @ dquote @ m @ dquote)
         \<and> (sl_message log = None \<or> sl_message log = Some [] \<longrightarrow> suffix = [])"
      by (auto simp: suffix_def)
    show ?thesis
      apply (rule exI [of _ actor])
      apply (rule exI [of _ transition])
      apply (rule exI [of _ suffix])
      apply (intro conjI)
             apply (rule eq)
            apply (rule a [THEN conjunct1])
           apply (rule a [THEN conjunct2, THEN conjunct1])
          apply (rule a [THEN conjunct2, THEN conjunct2])
         apply (rule t [THEN conjunct1])
        apply (rule t [THEN conjunct2])
       apply (rule x [THEN conjunct1])
      apply (rule x [THEN conjunct2])
      done
  qed
  show ?thesis
  proof (intro conjI allI impI)
    show "length (formatAssignmentHistory toLocaleString logs) = length logs"
      by (simp add: formatAssignmentHistory_def)
  next
    fix i
    assume "i < length logs"
    then have e: "formatAssignmentHistory toLocaleString logs ! i
        = format_line toLocaleString (logs ! i)"
      by (simp add: formatAssignmentHistory_def)
    show "\<exists>actor transition suffix.
         formatAssignmentHistory toLocaleString logs ! i
           = ''['' @ toLocaleString (sl_created_at (logs ! i)) @ ''] '' @ actor @ '': ''
               @ transition @ suffix
         \<and> (\<forall>u. changedByUser (logs ! i) = Some u \<longrightarrow> actor = ''Manager '' @ ur_name u)
         \<and> (\<forall>m. changedByUser (logs ! i) = None \<and> changedByStaffMember (logs ! i) = Some m \<longrightarrow>
                actor = ''Staff '' @ ur_name m)
         \<and> (changedByUser (logs ! i) = None \<and> changedByStaffMember (logs ! i) = None \<longrightarrow>
                actor = ''System'')
         \<and> (\<forall>p. sl_previous_status (logs ! i) = Some p \<longrightarrow>
                transition = status_name p @ '' '' @ arrow @ '' '' @ status_name (sl_new_status (logs ! i)))
         \<and> (sl_previous_status (logs ! i) = None \<longrightarrow>
                transition = ''Status gesetzt: '' @ status_name (sl_new_status (logs ! i)))
         \<and> (\<forall>m. sl_message (logs ! i) = Some m \<and> m \<noteq> [] \<longrightarrow>
                suffix = '' - '' @ dquote @ m @ dquote)
         \<and> (sl_message (logs ! i) = None \<or> sl_message (logs ! i) = Some [] \<longrightarrow> suffix = [])"
      unfolding e by (rule line)
  qed
qed

theorem formatAssignmentHistory_lines_witness:
  "formatAssignmentHistory de_DE [entry_system, entry_staff]
     = [''[1.1.1970, 01:00:00] System: Status gesetzt: pending'',
        ''[1.1.1970, 01:00:00] Staff Jane Doe: pending '' @ arrow @ '' accepted - ''
          @ dquote @ ''Available!'' @ dquote]
   \<and> length (formatAssignmentHistory de_DE [entry_system, entry_staff]) = 2"
proof -
  have "formatAssignmentHistory de_DE [entry_system, entry_staff]
     = [''[1.1.1970, 01:00:00] System: Status gesetzt: pending'',
        ''[1.1.1970, 01:00:00] Staff Jane Doe: pending '' @ arrow @ '' accepted - ''
          @ dquote @ ''Available!'' @ dquote]"
    by (simp add: formatAssignmentHistory_def format_line_def entry_system_def entry_staff_def
          de_DE_def Let_def)
  moreover from formatAssignmentHistory_lines [of de_DE "[entry_system, entry_staff]"]
  have "length (formatAssignmentHistory de_DE [entry_system, entry_staff]) = 2"
    by simp
  ultimately show ?thesis by simp
qed

text \<open>
  The claim as stated, every line ending in the quoted message, fails for an entry
  without a message: its line ends with the transition.
\<close>

theorem formatAssignmentHistory_no_message_counterexample:
  "sl_message entry_system = None
   \<and> formatAssignmentHistory de_DE [entry_system]
       = [''[1.1.1970, 01:00:00] System: Status gesetzt: pending'']
   \<and> last (hd (formatAssignmentHistory de_DE [entry_system])) \<noteq> CHR 0x22"
  by (simp add: formatAssignmentHistory_def format_line_def entry_system_def de_DE_def Let_def)

end
